theory Spec2Isabelle
  imports Complex_Main
begin

section \<open>The tab bar of qquicktabbar.cpp\<close>

text \<open>
  A shallow embedding of \<^verbatim>\<open>src/quicktemplates2/qquicktabbar.cpp\<close>: the layout pass
  \<^verbatim>\<open>QQuickTabBarPrivate::updateLayout\<close>, the change listeners that start it, the
  content-size overrides, and the two slots that keep \<^verbatim>\<open>currentIndex\<close> and the checked tab
  button in step.

  Conventions of the model.
  \<^item> \<^verbatim>\<open>qreal\<close> is modelled by \<open>real\<close>: arithmetic is exact, there is no rounding, no
    overflow, and there are no infinities or NaN values. \<^verbatim>\<open>qFuzzyCompare\<close> is Qt's relative
    comparison, written out over the reals. Over the reals it holds between a number and
    itself; Qt's version on doubles does not at an infinity or a NaN. The theorems below use
    \<open>qFuzzyCompare\<close> only as the test the code makes, never that fact, and a statement that
    needs it (that a second pass is silent in every state) is not among them.
  \<^item> Objects live in a store \<open>heap\<close> from references to objects; a pointer is a reference,
    the null pointer is \<open>None\<close>. The content model is the list of references it holds.
  \<^item> Signals and the deferred \<^verbatim>\<open>polish()\<close> request are appended to the log \<open>emitted\<close>.
  \<^item> A handler returns \<open>Some\<close> of the state it leaves behind. Qt delivers change
    notifications by synchronous calls, so the handlers call each other; the first argument of
    each is a budget of nested entries into \<open>updateLayout\<close> (or into \<open>updateCurrentIndex\<close>),
    and \<open>None\<close> is returned when a further entry would be needed and the budget is spent, or
    when a dead reference would be dereferenced.
\<close>

subsection \<open>Objects and the private state\<close>

type_synonym ref = nat

text \<open>What \<^verbatim>\<open>qobject_cast\<close> can see of an object: its class.\<close>

datatype qclass = QObjectClass | QQuickItemClass | QQuickTabButtonClass

text \<open>
  The part of a \<^verbatim>\<open>QQuickItem\<close> (and of a \<^verbatim>\<open>QQuickTabButton\<close>) the file reads or writes:
  \<^verbatim>\<open>width()\<close>, \<^verbatim>\<open>implicitWidth()\<close>, \<^verbatim>\<open>implicitHeight()\<close>,
  \<^verbatim>\<open>QQuickItemPrivate::widthValid\<close> and \<^verbatim>\<open>isChecked()\<close>.
\<close>

record qobject =
  cls :: qclass
  width :: real
  implicitWidth :: real
  implicitHeight :: real
  widthValid :: bool
  checked :: bool

datatype Position = Header | Footer

datatype signal =
    ContentWidthChanged
  | ContentHeightChanged
  | PositionChanged
  | CurrentIndexChanged
  | CurrentItemChanged
  | CheckedChanged ref
  | PolishRequest

text \<open>
  The six members of \<^verbatim>\<open>QQuickTabBarPrivate\<close>, followed by what the file uses of its base
  classes and of the framework: the content model, \<^verbatim>\<open>currentIndex\<close>, the content item
  (only its width is read), \<^verbatim>\<open>spacing\<close>, \<^verbatim>\<open>isComponentComplete()\<close>, the set of buttons whose
  \<^verbatim>\<open>checkedChanged\<close> signal is connected to \<^verbatim>\<open>updateCurrentIndex\<close>, the store and the log.
\<close>

record QQuickTabBarPrivate =
  updatingLayout :: bool
  hasContentWidth :: bool
  hasContentHeight :: bool
  contentWidth :: real
  contentHeight :: real
  position :: Position
  contentModel :: "ref list"
  currentIndex :: int
  contentItem :: "qobject option"
  spacing :: real
  isComponentComplete :: bool
  connected :: "ref set"
  heap :: "ref \<Rightarrow> qobject option"
  emitted :: "signal list"

text \<open>
  The state the constructor leaves (lines 119-128): flags clear, sizes zero, position
  \<^verbatim>\<open>Header\<close>; the inherited members start empty, with \<^verbatim>\<open>currentIndex\<close> at -1.
\<close>

definition QQuickTabBarPrivate_init :: QQuickTabBarPrivate where
  "QQuickTabBarPrivate_init =
     \<lparr>updatingLayout = False, hasContentWidth = False, hasContentHeight = False,
      contentWidth = 0, contentHeight = 0, position = Header,
      contentModel = [], currentIndex = - 1, contentItem = None, spacing = 0,
      isComponentComplete = False, connected = {}, heap = (\<lambda>r. None), emitted = []\<rparr>"

subsection \<open>Framework operations the file calls\<close>

text \<open>
  Qt's \<^verbatim>\<open>qFuzzyCompare(double, double)\<close>:
  \<^verbatim>\<open>qAbs(p1 - p2) * 1000000000000. <= qMin(qAbs(p1), qAbs(p2))\<close>.
\<close>

definition qFuzzyCompare :: "real \<Rightarrow> real \<Rightarrow> bool" where
  "qFuzzyCompare p1 p2 \<longleftrightarrow> \<bar>p1 - p2\<bar> * 1000000000000 \<le> min \<bar>p1\<bar> \<bar>p2\<bar>"

text \<open>
  \<^verbatim>\<open>contentModel->count()\<close> and \<^verbatim>\<open>contentModel->get(index)\<close>; the latter is null outside
  the range.
\<close>

definition count :: "QQuickTabBarPrivate \<Rightarrow> int" where
  "count s = int (length (contentModel s))"

definition get :: "QQuickTabBarPrivate \<Rightarrow> int \<Rightarrow> ref option" where
  "get s i = (if 0 \<le> i \<and> i < count s then Some (contentModel s ! nat i) else None)"

text \<open>
  \<^verbatim>\<open>qobject_cast<QQuickItem *>\<close> and \<^verbatim>\<open>qobject_cast<QQuickTabButton *>\<close>: null for the
  null pointer and for an object of another class. A tab button is a quick item.
\<close>

definition asQuickItem :: "QQuickTabBarPrivate \<Rightarrow> ref option \<Rightarrow> ref option" where
  "asQuickItem s p =
     (case p of None \<Rightarrow> None
      | Some r \<Rightarrow> (case heap s r of None \<Rightarrow> None
          | Some ob \<Rightarrow> if cls ob = QObjectClass then None else Some r))"

definition asTabButton :: "QQuickTabBarPrivate \<Rightarrow> ref option \<Rightarrow> ref option" where
  "asTabButton s p =
     (case p of None \<Rightarrow> None
      | Some r \<Rightarrow> (case heap s r of None \<Rightarrow> None
          | Some ob \<Rightarrow> if cls ob = QQuickTabButtonClass then Some r else None))"

text \<open>\<^verbatim>\<open>QQuickContainer::itemAt\<close>: the model entry, cast to an item.\<close>

definition itemAt :: "QQuickTabBarPrivate \<Rightarrow> int \<Rightarrow> ref option" where
  "itemAt s i = asQuickItem s (get s i)"

definition emit :: "signal \<Rightarrow> QQuickTabBarPrivate \<Rightarrow> QQuickTabBarPrivate" where
  "emit sg s = s\<lparr>emitted := emitted s @ [sg]\<rparr>"

subsection \<open>The layout pass\<close>

text \<open>The locals of \<^verbatim>\<open>updateLayout\<close> that the first loop accumulates (lines 152-157).\<close>

record layoutAcc =
  maxHeight :: real
  totalWidth :: real
  reservedWidth :: real
  resizableItems :: "ref list"

text \<open>The body of the first loop (lines 160-171) at index \<open>i\<close>.\<close>

definition measureItem :: "QQuickTabBarPrivate \<Rightarrow> layoutAcc \<Rightarrow> int \<Rightarrow> layoutAcc" where
  "measureItem s a i =
     (case itemAt s i of None \<Rightarrow> a
      | Some item \<Rightarrow> (case heap s item of None \<Rightarrow> a
          | Some p \<Rightarrow>
              (if \<not> widthValid p
               then a\<lparr>resizableItems := resizableItems a @ [item],
                      totalWidth := totalWidth a + implicitWidth p\<rparr>
               else a\<lparr>reservedWidth := reservedWidth a + width p,
                      totalWidth := totalWidth a + width p\<rparr>)
              \<lparr>maxHeight := max (maxHeight a) (implicitHeight p)\<rparr>))"

text \<open>The loop \<^verbatim>\<open>for (int i = 0; i < count; ++i)\<close> of line 159.\<close>

function measureLoop :: "QQuickTabBarPrivate \<Rightarrow> int \<Rightarrow> int \<Rightarrow> layoutAcc \<Rightarrow> layoutAcc" where
  "measureLoop s i n a = (if i < n then measureLoop s (i + 1) n (measureItem s a i) else a)"
  by pat_completeness auto
termination
  by (relation "measure (\<lambda>(s, i, n, a). nat (n - i))") auto

declare measureLoop.simps [simp del]

text \<open>The first loop run from its initial values.\<close>

definition measureAll :: "QQuickTabBarPrivate \<Rightarrow> layoutAcc" where
  "measureAll s =
     measureLoop s 0 (count s)
       \<lparr>maxHeight = 0, totalWidth = 0, reservedWidth = 0, resizableItems = []\<rparr>"

text \<open>
  The tail of \<^verbatim>\<open>updateLayout\<close> (lines 188-203): both sizes are updated first, then the
  signals are emitted, width before height.
\<close>

definition updateContentSize :: "real \<Rightarrow> real \<Rightarrow> QQuickTabBarPrivate \<Rightarrow> QQuickTabBarPrivate" where
  "updateContentSize tw mh s =
     (let contentWidthChange = \<not> hasContentWidth s \<and> \<not> qFuzzyCompare (contentWidth s) tw;
          s1 = (if contentWidthChange then s\<lparr>contentWidth := tw\<rparr> else s);
          contentHeightChange = \<not> hasContentHeight s1 \<and> \<not> qFuzzyCompare (contentHeight s1) mh;
          s2 = (if contentHeightChange then s1\<lparr>contentHeight := mh\<rparr> else s1);
          s3 = (if contentWidthChange then emit ContentWidthChanged s2 else s2)
      in if contentHeightChange then emit ContentHeightChanged s3 else s3)"

text \<open>
  \<^verbatim>\<open>updateLayout\<close> (lines 145-204) with the calls it makes.
  \<^item> \<open>setWidth\<close> is Qt's \<^verbatim>\<open>QQuickItem::setWidth\<close>: it marks the width as explicitly set,
    returns if the width is unchanged, and otherwise stores it and notifies the item's change
    listeners, of which the tab bar is one (\<^verbatim>\<open>changeTypes |= Geometry\<close>, line 127); the
    notification is the call of \<open>itemGeometryChanged\<close>.
  \<^item> \<open>assignWidths\<close> is the loop of lines 181-184.
  \<^item> \<open>itemGeometryChanged\<close> is lines 206-210.
\<close>

fun updateLayout :: "nat \<Rightarrow> QQuickTabBarPrivate \<Rightarrow> QQuickTabBarPrivate option"
  and itemGeometryChanged :: "nat \<Rightarrow> QQuickTabBarPrivate \<Rightarrow> QQuickTabBarPrivate option"
  and setWidth :: "nat \<Rightarrow> ref \<Rightarrow> real \<Rightarrow> QQuickTabBarPrivate \<Rightarrow> QQuickTabBarPrivate option"
  and assignWidths :: "nat \<Rightarrow> ref list \<Rightarrow> real \<Rightarrow> QQuickTabBarPrivate \<Rightarrow> QQuickTabBarPrivate option"
where
  "updateLayout 0 s = None"
| "updateLayout (Suc k) s =
     (if count s \<le> 0 then Some s
      else case contentItem s of None \<Rightarrow> Some s
      | Some ci \<Rightarrow>
        (let a = measureAll s;
             totalSpacing = real_of_int (max 0 (count s - 1)) * spacing s;
             tw = totalWidth a + totalSpacing
         in case (if resizableItems a \<noteq> []
                  then (let itemWidth = (width ci - reservedWidth a - totalSpacing)
                                          / real (length (resizableItems a))
                        in case assignWidths k (resizableItems a) itemWidth
                                  (s\<lparr>updatingLayout := True\<rparr>) of
                             None \<Rightarrow> None
                           | Some s1 \<Rightarrow> Some (s1\<lparr>updatingLayout := False\<rparr>))
                  else Some s) of
              None \<Rightarrow> None
            | Some s2 \<Rightarrow> Some (updateContentSize tw (maxHeight a) s2)))"
| "itemGeometryChanged k s = (if \<not> updatingLayout s then updateLayout k s else Some s)"
| "setWidth k item w s =
     (case heap s item of None \<Rightarrow> None
      | Some p \<Rightarrow>
         (let s1 = s\<lparr>heap := (heap s)(item \<mapsto> p\<lparr>widthValid := True\<rparr>)\<rparr>
          in if width p = w then Some s1
             else itemGeometryChanged k
                    (s1\<lparr>heap := (heap s1)(item \<mapsto> p\<lparr>widthValid := True, width := w\<rparr>)\<rparr>)))"
| "assignWidths k [] w s = Some s"
| "assignWidths k (item # rest) w s =
     (case setWidth k item w s of None \<Rightarrow> None
      | Some s1 \<Rightarrow>
         (case heap s1 item of None \<Rightarrow> None
          | Some p \<Rightarrow> assignWidths k rest w
                        (s1\<lparr>heap := (heap s1)(item \<mapsto> p\<lparr>widthValid := False\<rparr>)\<rparr>)))"

text \<open>
  For the proofs: the store after the assignment loop, and the whole pass as a function
  without a budget. \<open>updateLayout\<close> is shown below to return \<open>layoutPass\<close> at every positive
  budget.
\<close>

definition assignedHeap :: "ref list \<Rightarrow> real \<Rightarrow> (ref \<Rightarrow> qobject option) \<Rightarrow> ref \<Rightarrow> qobject option" where
  "assignedHeap rs w h =
     (\<lambda>r. if r \<in> set rs then map_option (\<lambda>p. p\<lparr>width := w, widthValid := False\<rparr>) (h r) else h r)"

definition layoutPass :: "QQuickTabBarPrivate \<Rightarrow> QQuickTabBarPrivate" where
  "layoutPass s =
     (if count s \<le> 0 then s
      else case contentItem s of None \<Rightarrow> s
      | Some ci \<Rightarrow>
        (let a = measureAll s;
             totalSpacing = real_of_int (max 0 (count s - 1)) * spacing s;
             itemWidth = (width ci - reservedWidth a - totalSpacing)
                           / real (length (resizableItems a))
         in updateContentSize (totalWidth a + totalSpacing) (maxHeight a)
              (if resizableItems a \<noteq> []
               then s\<lparr>heap := assignedHeap (resizableItems a) itemWidth (heap s),
                      updatingLayout := False\<rparr>
               else s)))"


text \<open>The two implicit-size listeners (lines 212-222).\<close>

definition itemImplicitWidthChanged :: "nat \<Rightarrow> QQuickTabBarPrivate \<Rightarrow> QQuickTabBarPrivate option" where
  "itemImplicitWidthChanged k s =
     (if \<not> updatingLayout s \<and> \<not> hasContentWidth s then updateLayout k s else Some s)"

definition itemImplicitHeightChanged :: "nat \<Rightarrow> QQuickTabBarPrivate \<Rightarrow> QQuickTabBarPrivate option" where
  "itemImplicitHeightChanged k s =
     (if \<not> updatingLayout s \<and> \<not> hasContentHeight s then updateLayout k s else Some s)"

subsection \<open>Selection\<close>

text \<open>
  \<^verbatim>\<open>contentModel->indexOf(button, nullptr)\<close>: the first index holding the object, -1 when
  it is absent.
\<close>

fun indexOfFrom :: "int \<Rightarrow> ref list \<Rightarrow> ref \<Rightarrow> int" where
  "indexOfFrom i [] r = - 1"
| "indexOfFrom i (x # xs) r = (if x = r then i else indexOfFrom (i + 1) xs r)"

definition indexOf :: "QQuickTabBarPrivate \<Rightarrow> ref \<Rightarrow> int" where
  "indexOf s r = indexOfFrom 0 (contentModel s) r"

text \<open>
  \<^verbatim>\<open>updateCurrentIndex\<close> (lines 137-143), with the sender of the signal as an argument, and
  \<^verbatim>\<open>updateCurrentItem\<close> (lines 130-135). They are defined together with the two operations
  they call, which call them back through the signal connections.
\<close>

text \<open>
  Modelled from the spec: \<^verbatim>\<open>QQuickContainer::setCurrentIndex\<close> and
  \<^verbatim>\<open>QQuickAbstractButton::setChecked\<close> are defined in other files of the repository, which
  are missing here. \<open>setCurrentIndex\<close> follows "if different from the current value, set
  currentIndex to it", and its change signal runs \<open>updateCurrentItem\<close>, the connection made at
  line 229. \<open>setChecked\<close> follows "a boolean checked property with change notification, and a
  settable form"; the notification runs \<open>updateCurrentIndex\<close> with the button as sender if the
  button is connected (line 378).
\<close>

fun updateCurrentIndex :: "nat \<Rightarrow> ref option \<Rightarrow> QQuickTabBarPrivate \<Rightarrow> QQuickTabBarPrivate option"
  and setCurrentIndex :: "nat \<Rightarrow> int \<Rightarrow> QQuickTabBarPrivate \<Rightarrow> QQuickTabBarPrivate option"
  and updateCurrentItem :: "nat \<Rightarrow> QQuickTabBarPrivate \<Rightarrow> QQuickTabBarPrivate option"
  and setChecked :: "nat \<Rightarrow> ref \<Rightarrow> bool \<Rightarrow> QQuickTabBarPrivate \<Rightarrow> QQuickTabBarPrivate option"
where
  "updateCurrentIndex 0 sender s = None"
| "updateCurrentIndex (Suc k) sender s =
     (case asTabButton s sender of None \<Rightarrow> Some s
      | Some button \<Rightarrow>
         (case heap s button of None \<Rightarrow> None
          | Some b \<Rightarrow> if checked b then setCurrentIndex k (indexOf s button) s else Some s))"
| "setCurrentIndex k index s =
     (if currentIndex s = index then Some s
      else updateCurrentItem k (emit CurrentIndexChanged (s\<lparr>currentIndex := index\<rparr>)))"
| "updateCurrentItem k s =
     (case asTabButton s (get s (currentIndex s)) of None \<Rightarrow> Some s
      | Some button \<Rightarrow> setChecked k button True s)"
| "setChecked k button v s =
     (case heap s button of None \<Rightarrow> None
      | Some b \<Rightarrow>
         if checked b = v then Some s
         else (let s1 = emit (CheckedChanged button)
                          (s\<lparr>heap := (heap s)(button \<mapsto> b\<lparr>checked := v\<rparr>)\<rparr>)
               in if button \<in> connected s1 then updateCurrentIndex k (Some button) s1
                  else Some s1))"

subsection \<open>The public operations\<close>

text \<open>Lines 254-262, 283-303 and 323-343.\<close>

definition setPosition :: "Position \<Rightarrow> QQuickTabBarPrivate \<Rightarrow> QQuickTabBarPrivate" where
  "setPosition p s = (if position s = p then s else emit PositionChanged (s\<lparr>position := p\<rparr>))"

definition setContentWidth :: "real \<Rightarrow> QQuickTabBarPrivate \<Rightarrow> QQuickTabBarPrivate" where
  "setContentWidth w s =
     (let s1 = s\<lparr>hasContentWidth := True\<rparr>
      in if qFuzzyCompare (contentWidth s1) w then s1
         else emit ContentWidthChanged (s1\<lparr>contentWidth := w\<rparr>))"

definition resetContentWidth :: "nat \<Rightarrow> QQuickTabBarPrivate \<Rightarrow> QQuickTabBarPrivate option" where
  "resetContentWidth k s =
     (if \<not> hasContentWidth s then Some s
      else (let s1 = s\<lparr>hasContentWidth := False\<rparr>
            in if isComponentComplete s1 then updateLayout k s1 else Some s1))"

definition setContentHeight :: "real \<Rightarrow> QQuickTabBarPrivate \<Rightarrow> QQuickTabBarPrivate" where
  "setContentHeight h s =
     (let s1 = s\<lparr>hasContentHeight := True\<rparr>
      in if qFuzzyCompare (contentHeight s1) h then s1
         else emit ContentHeightChanged (s1\<lparr>contentHeight := h\<rparr>))"

definition resetContentHeight :: "nat \<Rightarrow> QQuickTabBarPrivate \<Rightarrow> QQuickTabBarPrivate option" where
  "resetContentHeight k s =
     (if \<not> hasContentHeight s then Some s
      else (let s1 = s\<lparr>hasContentHeight := False\<rparr>
            in if isComponentComplete s1 then updateLayout k s1 else Some s1))"

text \<open>
  Lines 345-365. Each first calls its base-class version; of those only the completion flag
  set under \<^verbatim>\<open>componentComplete\<close> is part of the state here.
\<close>

definition updatePolish :: "nat \<Rightarrow> QQuickTabBarPrivate \<Rightarrow> QQuickTabBarPrivate option" where
  "updatePolish k s = updateLayout k s"

definition componentComplete :: "nat \<Rightarrow> QQuickTabBarPrivate \<Rightarrow> QQuickTabBarPrivate option" where
  "componentComplete k s =
     (case updateCurrentItem k (s\<lparr>isComponentComplete := True\<rparr>) of None \<Rightarrow> None
      | Some s1 \<Rightarrow> updateLayout k s1)"

definition geometryChanged :: "nat \<Rightarrow> QQuickTabBarPrivate \<Rightarrow> QQuickTabBarPrivate option" where
  "geometryChanged k s = updateLayout k s"

text \<open>
  Lines 367-391. \<^verbatim>\<open>polish()\<close> asks the framework for a later \<^verbatim>\<open>updatePolish\<close>; the
  request is logged. \<^verbatim>\<open>setCulled\<close> concerns rendering only and is left out.
\<close>

definition isContent :: "QQuickTabBarPrivate \<Rightarrow> ref \<Rightarrow> bool" where
  "isContent s item \<longleftrightarrow> asTabButton s (Some item) \<noteq> None"

definition polish :: "QQuickTabBarPrivate \<Rightarrow> QQuickTabBarPrivate" where
  "polish s = emit PolishRequest s"

definition itemAdded :: "int \<Rightarrow> ref \<Rightarrow> QQuickTabBarPrivate \<Rightarrow> QQuickTabBarPrivate" where
  "itemAdded index item s =
     (let s1 = (case asTabButton s (Some item) of None \<Rightarrow> s
                | Some button \<Rightarrow> s\<lparr>connected := insert button (connected s)\<rparr>)
      in if isComponentComplete s1 then polish s1 else s1)"

definition itemRemoved :: "int \<Rightarrow> ref \<Rightarrow> QQuickTabBarPrivate \<Rightarrow> QQuickTabBarPrivate" where
  "itemRemoved index item s =
     (let s1 = (case asTabButton s (Some item) of None \<Rightarrow> s
                | Some button \<Rightarrow> s\<lparr>connected := connected s - {button}\<rparr>)
      in if isComponentComplete s1 then polish s1 else s1)"

subsection \<open>Sequences of events\<close>

text \<open>
  What can happen to the control between two moments of rest: a notification or call handled
  by one of the functions above, a child whose width or checked flag is set from outside, a
  request to change the current index, and \<open>EvEnvironment\<close>, by which the collaborators
  replace the model, the store, the content item and the spacing with anything at all.
\<close>

datatype event =
    EvItemGeometryChanged
  | EvItemImplicitWidthChanged
  | EvItemImplicitHeightChanged
  | EvUpdatePolish
  | EvComponentComplete
  | EvGeometryChanged
  | EvSetContentWidth real
  | EvResetContentWidth
  | EvSetContentHeight real
  | EvResetContentHeight
  | EvSetPosition Position
  | EvItemAdded int ref
  | EvItemRemoved int ref
  | EvChildSetWidth ref real
  | EvChildSetChecked ref bool
  | EvSetCurrentIndex int
  | EvEnvironment "ref list" "ref \<Rightarrow> qobject option" "qobject option" real

fun step :: "nat \<Rightarrow> event \<Rightarrow> QQuickTabBarPrivate \<Rightarrow> QQuickTabBarPrivate option" where
  "step k EvItemGeometryChanged s = itemGeometryChanged k s"
| "step k EvItemImplicitWidthChanged s = itemImplicitWidthChanged k s"
| "step k EvItemImplicitHeightChanged s = itemImplicitHeightChanged k s"
| "step k EvUpdatePolish s = updatePolish k s"
| "step k EvComponentComplete s = componentComplete k s"
| "step k EvGeometryChanged s = geometryChanged k s"
| "step k (EvSetContentWidth w) s = Some (setContentWidth w s)"
| "step k EvResetContentWidth s = resetContentWidth k s"
| "step k (EvSetContentHeight h) s = Some (setContentHeight h s)"
| "step k EvResetContentHeight s = resetContentHeight k s"
| "step k (EvSetPosition p) s = Some (setPosition p s)"
| "step k (EvItemAdded i r) s = Some (itemAdded i r s)"
| "step k (EvItemRemoved i r) s = Some (itemRemoved i r s)"
| "step k (EvChildSetWidth r w) s = (if heap s r = None then Some s else setWidth k r w s)"
| "step k (EvChildSetChecked r v) s = (if heap s r = None then Some s else setChecked k r v s)"
| "step k (EvSetCurrentIndex i) s = setCurrentIndex k i s"
| "step k (EvEnvironment m h ci sp) s =
     Some (s\<lparr>contentModel := m, heap := h, contentItem := ci, spacing := sp\<rparr>)"

fun run :: "nat \<Rightarrow> event list \<Rightarrow> QQuickTabBarPrivate \<Rightarrow> QQuickTabBarPrivate option" where
  "run k [] s = Some s"
| "run k (e # es) s = (case step k e s of None \<Rightarrow> None | Some s1 \<Rightarrow> run k es s1)"

text \<open>The events other than setting or resetting the content width (height).\<close>

fun keepsWidthOverride :: "event \<Rightarrow> bool" where
  "keepsWidthOverride (EvSetContentWidth w) = False"
| "keepsWidthOverride EvResetContentWidth = False"
| "keepsWidthOverride e = True"

fun keepsHeightOverride :: "event \<Rightarrow> bool" where
  "keepsHeightOverride (EvSetContentHeight h) = False"
| "keepsHeightOverride EvResetContentHeight = False"
| "keepsHeightOverride e = True"

subsection \<open>Example states\<close>

text \<open>
  Three tab buttons of implicit widths 50, 60 and 70 with spacing 10 in a content item of
  width 300; the same with a fourth child of explicit width 40; and the three buttons in a
  content item of width 10, too narrow for the spacing alone.
\<close>

definition tabButton :: "real \<Rightarrow> real \<Rightarrow> qobject" where
  "tabButton iw ih =
     \<lparr>cls = QQuickTabButtonClass, width = 0, implicitWidth = iw, implicitHeight = ih,
      widthValid = False, checked = False\<rparr>"

definition exContentItem :: qobject where
  "exContentItem =
     \<lparr>cls = QQuickItemClass, width = 300, implicitWidth = 0, implicitHeight = 0,
      widthValid = True, checked = False\<rparr>"

definition exBar3 :: QQuickTabBarPrivate where
  "exBar3 = QQuickTabBarPrivate_init
     \<lparr>contentModel := [1, 2, 3], currentIndex := 0, contentItem := Some exContentItem,
      spacing := 10, isComponentComplete := True, connected := {1, 2, 3},
      heap := (\<lambda>r. None)(1 \<mapsto> tabButton 50 20, 2 \<mapsto> tabButton 60 30, 3 \<mapsto> tabButton 70 25)\<rparr>"

definition exBar4 :: QQuickTabBarPrivate where
  "exBar4 = exBar3
     \<lparr>contentModel := [1, 2, 3, 4],
      heap := (heap exBar3)(4 \<mapsto> (tabButton 45 20)\<lparr>width := 40, widthValid := True\<rparr>)\<rparr>"

definition exNarrow :: QQuickTabBarPrivate where
  "exNarrow = exBar3\<lparr>contentItem := Some (exContentItem\<lparr>width := 10\<rparr>)\<rparr>"

text \<open>
  The three buttons with the third one checked, as after a click on it; and with a plain
  item in place of the first button.
\<close>

definition exClicked :: QQuickTabBarPrivate where
  "exClicked = exBar3\<lparr>heap := (heap exBar3)(3 \<mapsto> (tabButton 70 25)\<lparr>checked := True\<rparr>)\<rparr>"

definition exPlain :: QQuickTabBarPrivate where
  "exPlain = exBar3\<lparr>heap := (heap exBar3)(1 \<mapsto> exContentItem)\<rparr>"








definition exEmpty :: QQuickTabBarPrivate where
  "exEmpty = QQuickTabBarPrivate_init
     \<lparr>hasContentWidth := True, hasContentHeight := True, contentWidth := 120, contentHeight := 33,
      isComponentComplete := True\<rparr>"

text \<open>
  What the selection handlers leave alone: the guard, both override flags, both stored sizes
  and the number of content-size signals in the log.
\<close>

abbreviation sizeStateKept :: "QQuickTabBarPrivate \<Rightarrow> QQuickTabBarPrivate \<Rightarrow> bool" where
  "sizeStateKept s s' \<equiv>
     updatingLayout s' = updatingLayout s
     \<and> hasContentWidth s' = hasContentWidth s \<and> contentWidth s' = contentWidth s
     \<and> count_list (emitted s') ContentWidthChanged = count_list (emitted s) ContentWidthChanged
     \<and> hasContentHeight s' = hasContentHeight s \<and> contentHeight s' = contentHeight s
     \<and> count_list (emitted s') ContentHeightChanged = count_list (emitted s) ContentHeightChanged"

lemmas ex_defs = exBar3_def exBar4_def exNarrow_def exClicked_def exPlain_def
  QQuickTabBarPrivate_init_def tabButton_def exContentItem_def


lemmas eval_defs = count_def get_def itemAt_def asQuickItem_def asTabButton_def measureItem_def
  measureAll_def measureLoop.simps updateContentSize_def qFuzzyCompare_def emit_def Let_def
  indexOf_def

section \<open>The layout pass as a function\<close>

lemma itemGeometryChanged_guarded: "updatingLayout s \<Longrightarrow> itemGeometryChanged k s = Some s"
  by simp

lemma setWidth_guarded:
  "updatingLayout s \<Longrightarrow> heap s r = Some p \<Longrightarrow>
   setWidth k r w s = Some (s\<lparr>heap := (heap s)(r \<mapsto> p\<lparr>widthValid := True, width := w\<rparr>)\<rparr>)"
  by (cases "width p = w") (auto simp: Let_def)

lemma assignedHeap_Nil: "assignedHeap [] w h = h"
  by (simp add: assignedHeap_def)

lemma assignedHeap_Cons:
  "h r = Some p \<Longrightarrow>
   assignedHeap rs w (h(r \<mapsto> p\<lparr>width := w, widthValid := False\<rparr>)) = assignedHeap (r # rs) w h"
  by (rule ext) (simp add: assignedHeap_def)

lemma assignWidths_guarded:
  "updatingLayout s \<Longrightarrow> \<forall>r\<in>set rs. heap s r \<noteq> None \<Longrightarrow>
   assignWidths k rs w s = Some (s\<lparr>heap := assignedHeap rs w (heap s)\<rparr>)"
proof (induction rs arbitrary: s)
  case Nil
  then show ?case by (simp add: assignedHeap_Nil)
next
  case (Cons r rs)
  then obtain p where p: "heap s r = Some p" by auto
  let ?s1 = "s\<lparr>heap := (heap s)(r \<mapsto> p\<lparr>width := w, widthValid := False\<rparr>)\<rparr>"
  have live: "\<forall>x\<in>set rs. heap ?s1 x \<noteq> None" using Cons.prems by auto
  have upd: "updatingLayout ?s1" using Cons.prems by simp
  have "assignWidths k (r # rs) w s = assignWidths k rs w ?s1"
    using Cons.prems(1) p by (simp add: setWidth_guarded del: setWidth.simps)
  also have "\<dots> = Some (?s1\<lparr>heap := assignedHeap rs w (heap ?s1)\<rparr>)"
    by (rule Cons.IH [OF upd live])
  also have "\<dots> = Some (s\<lparr>heap := assignedHeap (r # rs) w (heap s)\<rparr>)"
    using p by (simp add: assignedHeap_Cons)
  finally show ?case .
qed

lemma measureItem_resizable:
  "r \<in> set (resizableItems (measureItem s a i)) \<Longrightarrow>
   r \<in> set (resizableItems a) \<or> (\<exists>p. heap s r = Some p \<and> \<not> widthValid p)"
  by (auto simp: measureItem_def split: option.splits if_splits)

lemma measureLoop_resizable:
  "r \<in> set (resizableItems (measureLoop s i n a)) \<Longrightarrow>
   r \<in> set (resizableItems a) \<or> (\<exists>p. heap s r = Some p \<and> \<not> widthValid p)"
proof (induction s i n a rule: measureLoop.induct)
  case (1 s i n a)
  show ?case
  proof (cases "i < n")
    case True
    with "1.prems" have "r \<in> set (resizableItems (measureLoop s (i + 1) n (measureItem s a i)))"
      by (simp add: measureLoop.simps [of s i n a])
    with "1.IH" [OF True] have
      "r \<in> set (resizableItems (measureItem s a i)) \<or> (\<exists>p. heap s r = Some p \<and> \<not> widthValid p)"
      by blast
    then show ?thesis using measureItem_resizable by blast
  next
    case False
    with "1.prems" show ?thesis by (simp add: measureLoop.simps [of s i n a])
  qed
qed

lemma resizable_live:
  "r \<in> set (resizableItems (measureAll s)) \<Longrightarrow> \<exists>p. heap s r = Some p \<and> \<not> widthValid p"
  using measureLoop_resizable [of r s 0 "count s"] by (fastforce simp: measureAll_def)

lemma measureItem_cong:
  assumes "contentModel s' = contentModel s"
    and "\<And>r. heap s r = None \<Longrightarrow> heap s' r = None"
    and "\<And>r p. heap s r = Some p \<Longrightarrow>
           \<exists>p'. heap s' r = Some p' \<and> cls p' = cls p \<and> widthValid p' = widthValid p
              \<and> implicitWidth p' = implicitWidth p \<and> implicitHeight p' = implicitHeight p
              \<and> (widthValid p \<longrightarrow> width p' = width p)"
  shows "measureItem s' a i = measureItem s a i"
proof (cases "get s i")
  case None
  then have "get s' i = None" using assms(1) by (simp add: get_def count_def split: if_splits)
  with None show ?thesis by (simp add: measureItem_def itemAt_def asQuickItem_def)
next
  case (Some r)
  then have g: "get s' i = Some r" using assms(1) by (simp add: get_def count_def split: if_splits)
  show ?thesis
  proof (cases "heap s r")
    case None
    with assms(2) have "heap s' r = None" by simp
    with None Some g show ?thesis by (simp add: measureItem_def itemAt_def asQuickItem_def)
  next
    case (Some p)
    with assms(3) obtain p' where "heap s' r = Some p'" "cls p' = cls p"
      "widthValid p' = widthValid p" "implicitWidth p' = implicitWidth p"
      "implicitHeight p' = implicitHeight p" "widthValid p \<longrightarrow> width p' = width p"
      by blast
    with Some \<open>get s i = Some r\<close> g show ?thesis
      by (simp add: measureItem_def itemAt_def asQuickItem_def)
  qed
qed

lemma measureLoop_cong:
  assumes "contentModel s' = contentModel s"
    and "\<And>r. heap s r = None \<Longrightarrow> heap s' r = None"
    and "\<And>r p. heap s r = Some p \<Longrightarrow>
           \<exists>p'. heap s' r = Some p' \<and> cls p' = cls p \<and> widthValid p' = widthValid p
              \<and> implicitWidth p' = implicitWidth p \<and> implicitHeight p' = implicitHeight p
              \<and> (widthValid p \<longrightarrow> width p' = width p)"
  shows "measureLoop s' i n a = measureLoop s i n a"
proof (induction "nat (n - i)" arbitrary: i a)
  case 0
  then show ?case
    by (simp add: measureLoop.simps [of s i n a] measureLoop.simps [of s' i n a])
next
  case (Suc m)
  then have lt: "i < n" and m: "m = nat (n - (i + 1))" by auto
  show ?case
    using lt Suc.hyps(1) [OF m, of "measureItem s a i"] measureItem_cong [OF assms, of a i]
    by (simp add: measureLoop.simps [of s i n a] measureLoop.simps [of s' i n a])
qed

lemma updateLayout_Suc: "updateLayout (Suc k) s = Some (layoutPass s)"
proof (cases "count s \<le> 0")
  case True
  then show ?thesis by (simp add: layoutPass_def)
next
  case pos: False
  show ?thesis
  proof (cases "contentItem s")
    case None
    then show ?thesis using pos by (simp add: layoutPass_def)
  next
    case (Some ci)
    let ?a = "measureAll s"
    let ?s = "s\<lparr>updatingLayout := True\<rparr>"
    have live: "\<forall>r\<in>set (resizableItems ?a). heap ?s r \<noteq> None"
      using resizable_live [of _ s] by auto
    have asg: "assignWidths k (resizableItems ?a) w ?s
                 = Some (?s\<lparr>heap := assignedHeap (resizableItems ?a) w (heap ?s)\<rparr>)" for w
      by (rule assignWidths_guarded [OF _ live]) simp
    show ?thesis
      using pos Some
      by (simp add: layoutPass_def Let_def asg del: assignWidths.simps)
  qed
qed

subsection \<open>Properties of the pass\<close>

lemma updateContentSize_frame:
  "heap (updateContentSize tw mh s) = heap s"
  "updatingLayout (updateContentSize tw mh s) = updatingLayout s"
  "contentModel (updateContentSize tw mh s) = contentModel s"
  "contentItem (updateContentSize tw mh s) = contentItem s"
  "spacing (updateContentSize tw mh s) = spacing s"
  "hasContentWidth (updateContentSize tw mh s) = hasContentWidth s"
  "hasContentHeight (updateContentSize tw mh s) = hasContentHeight s"
  "currentIndex (updateContentSize tw mh s) = currentIndex s"
  "isComponentComplete (updateContentSize tw mh s) = isComponentComplete s"
  "connected (updateContentSize tw mh s) = connected s"
  "position (updateContentSize tw mh s) = position s"
  by (simp_all add: updateContentSize_def Let_def emit_def)

lemma updateContentSize_width_override:
  "hasContentWidth s \<Longrightarrow> contentWidth (updateContentSize tw mh s) = contentWidth s"
  "hasContentWidth s \<Longrightarrow>
     count_list (emitted (updateContentSize tw mh s)) ContentWidthChanged
       = count_list (emitted s) ContentWidthChanged"
  by (simp_all add: updateContentSize_def Let_def emit_def)

lemma updateContentSize_height_override:
  "hasContentHeight s \<Longrightarrow> contentHeight (updateContentSize tw mh s) = contentHeight s"
  "hasContentHeight s \<Longrightarrow>
     count_list (emitted (updateContentSize tw mh s)) ContentHeightChanged
       = count_list (emitted s) ContentHeightChanged"
  by (simp_all add: updateContentSize_def Let_def emit_def)

lemma layoutPass_run:
  assumes "0 < count s" "contentItem s = Some ci"
  shows "layoutPass s =
     updateContentSize (totalWidth (measureAll s) + real_of_int (max 0 (count s - 1)) * spacing s)
       (maxHeight (measureAll s))
       (if resizableItems (measureAll s) \<noteq> []
        then s\<lparr>heap := assignedHeap (resizableItems (measureAll s))
                 ((width ci - reservedWidth (measureAll s)
                    - real_of_int (max 0 (count s - 1)) * spacing s)
                  / real (length (resizableItems (measureAll s)))) (heap s),
               updatingLayout := False\<rparr>
        else s)"
  using assms by (simp add: layoutPass_def Let_def)

lemma layoutPass_frame:
  "contentModel (layoutPass s) = contentModel s"
  "contentItem (layoutPass s) = contentItem s"
  "spacing (layoutPass s) = spacing s"
  "hasContentWidth (layoutPass s) = hasContentWidth s"
  "hasContentHeight (layoutPass s) = hasContentHeight s"
  "currentIndex (layoutPass s) = currentIndex s"
  "isComponentComplete (layoutPass s) = isComponentComplete s"
  "connected (layoutPass s) = connected s"
  "position (layoutPass s) = position s"
  by (simp_all add: layoutPass_def Let_def updateContentSize_frame split: option.splits)

lemma layoutPass_guard:
  "updatingLayout (layoutPass s) \<Longrightarrow> updatingLayout s"
  by (simp add: layoutPass_def Let_def updateContentSize_frame split: option.splits if_splits)

lemma layoutPass_heap:
  "heap (layoutPass s) r = heap s r \<or>
   (r \<in> set (resizableItems (measureAll s)) \<and> 0 < count s \<and>
    (\<exists>ci. contentItem s = Some ci \<and>
      heap (layoutPass s) r = map_option (\<lambda>p. p\<lparr>width :=
          (width ci - reservedWidth (measureAll s) - real_of_int (max 0 (count s - 1)) * spacing s)
            / real (length (resizableItems (measureAll s))), widthValid := False\<rparr>) (heap s r)))"
  by (auto simp: layoutPass_def Let_def updateContentSize_frame assignedHeap_def split: option.splits if_splits)

lemma layoutPass_heap_other:
  "r \<notin> set (resizableItems (measureAll s)) \<Longrightarrow> heap (layoutPass s) r = heap s r"
  using layoutPass_heap [of s r] by auto


section \<open>Selection: the handlers complete\<close>

lemma indexOfFrom_notin: "r \<notin> set xs \<Longrightarrow> indexOfFrom i xs r = - 1"
  by (induction xs arbitrary: i) auto

lemma indexOfFrom_in:
  "r \<in> set xs \<Longrightarrow>
   \<exists>j<length xs. indexOfFrom i xs r = i + int j \<and> xs ! j = r \<and> (\<forall>m<j. xs ! m \<noteq> r)"
proof (induction xs arbitrary: i)
  case Nil
  then show ?case by simp
next
  case (Cons x xs)
  show ?case
  proof (cases "x = r")
    case True
    then show ?thesis by (intro exI [of _ 0]) simp
  next
    case False
    with Cons.prems have "r \<in> set xs" by simp
    from Cons.IH [OF this, of "i + 1"] obtain j where j: "j < length xs"
      "indexOfFrom (i + 1) xs r = i + 1 + int j" "xs ! j = r" "\<forall>m<j. xs ! m \<noteq> r"
      by blast
    have "\<forall>m<Suc j. (x # xs) ! m \<noteq> r"
    proof (intro allI impI)
      fix m assume "m < Suc j"
      then show "(x # xs) ! m \<noteq> r" using False j(4) by (cases m) auto
    qed
    with j False show ?thesis by (intro exI [of _ "Suc j"]) simp
  qed
qed

lemma indexOfFrom_first:
  "j < length xs \<Longrightarrow> xs ! j = r \<Longrightarrow> (\<forall>m<j. xs ! m \<noteq> r) \<Longrightarrow> indexOfFrom i xs r = i + int j"
proof (induction xs arbitrary: i j)
  case Nil
  then show ?case by simp
next
  case (Cons x xs)
  show ?case
  proof (cases j)
    case 0
    with Cons.prems show ?thesis by simp
  next
    case (Suc j')
    with Cons.prems have "x \<noteq> r" by (metis nth_Cons_0 zero_less_Suc)
    moreover have "indexOfFrom (i + 1) xs r = i + 1 + int j'"
    proof (rule Cons.IH)
      show "j' < length xs" using Cons.prems Suc by simp
      show "xs ! j' = r" using Cons.prems Suc by simp
      show "\<forall>m<j'. xs ! m \<noteq> r"
      proof (intro allI impI)
        fix m assume "m < j'"
        then have "Suc m < j" using Suc by simp
        with Cons.prems(3) have "(x # xs) ! Suc m \<noteq> r" by blast
        then show "xs ! m \<noteq> r" by simp
      qed
    qed
    ultimately show ?thesis using Suc by simp
  qed
qed

lemma get_indexOf:
  "get s (indexOf s r) = (if r \<in> set (contentModel s) then Some r else None)"
proof (cases "r \<in> set (contentModel s)")
  case True
  from indexOfFrom_in [OF this, of 0] obtain j where "j < length (contentModel s)"
    "indexOf s r = int j" "contentModel s ! j = r"
    by (auto simp: indexOf_def)
  with True show ?thesis by (simp add: get_def count_def)
next
  case False
  then show ?thesis by (simp add: indexOf_def indexOfFrom_notin get_def)
qed

lemma asTabButton_SomeD:
  "asTabButton s x = Some b \<Longrightarrow> x = Some b \<and> (\<exists>p. heap s b = Some p \<and> cls p = QQuickTabButtonClass)"
  by (auto simp: asTabButton_def split: option.splits if_splits)

lemma updateCurrentItem_miss:
  "asTabButton s (get s (currentIndex s)) = None \<Longrightarrow> updateCurrentItem k s = Some s"
  by simp

lemma updateCurrentItem_checked:
  "asTabButton s (get s (currentIndex s)) = Some b \<Longrightarrow> heap s b = Some p \<Longrightarrow> checked p \<Longrightarrow>
   updateCurrentItem k s = Some s"
  by simp

lemma setCurrentIndex_checked:
  assumes "heap s b = Some p" "checked p"
  shows "setCurrentIndex k (indexOf s b) s =
           Some (if currentIndex s = indexOf s b then s
                 else emit CurrentIndexChanged (s\<lparr>currentIndex := indexOf s b\<rparr>))"
proof (cases "currentIndex s = indexOf s b")
  case True
  then show ?thesis by simp
next
  case False
  let ?s = "emit CurrentIndexChanged (s\<lparr>currentIndex := indexOf s b\<rparr>)"
  have "get ?s (currentIndex ?s) = get s (indexOf s b)"
    by (simp add: emit_def get_def count_def)
  then have g: "get ?s (currentIndex ?s) = (if b \<in> set (contentModel s) then Some b else None)"
    by (simp only: get_indexOf)
  have h: "heap ?s b = Some p" using assms by (simp add: emit_def)
  have "updateCurrentItem k ?s = Some ?s"
  proof (cases "asTabButton ?s (get ?s (currentIndex ?s))")
    case None
    then show ?thesis by (rule updateCurrentItem_miss)
  next
    case (Some b')
    from asTabButton_SomeD [OF this] g have "b' = b" by (auto split: if_splits)
    with Some h assms(2) show ?thesis by (simp only: updateCurrentItem_checked)
  qed
  with False show ?thesis by (simp del: updateCurrentItem.simps)
qed

lemma updateCurrentIndex_Suc:
  "updateCurrentIndex (Suc k) sender s =
     Some (case asTabButton s sender of None \<Rightarrow> s
           | Some b \<Rightarrow> (case heap s b of None \<Rightarrow> s
               | Some p \<Rightarrow> if checked p \<and> currentIndex s \<noteq> indexOf s b
                           then emit CurrentIndexChanged (s\<lparr>currentIndex := indexOf s b\<rparr>) else s))"
proof (cases "asTabButton s sender")
  case None
  then show ?thesis by simp
next
  case (Some b)
  from asTabButton_SomeD [OF this] obtain p where p: "heap s b = Some p" by blast
  show ?thesis
  proof (cases "checked p")
    case True
    show ?thesis
      using Some p True setCurrentIndex_checked [OF p True, of k]
      by (simp del: setCurrentIndex.simps)
  next
    case False
    then show ?thesis using Some p by simp
  qed
qed

lemma setChecked_Suc:
  assumes "heap s b = Some p"
  shows "setChecked (Suc k) b v s =
     Some (if checked p = v then s
           else (let s1 = emit (CheckedChanged b) (s\<lparr>heap := (heap s)(b \<mapsto> p\<lparr>checked := v\<rparr>)\<rparr>)
                 in if b \<in> connected s \<and> cls p = QQuickTabButtonClass \<and> v
                       \<and> currentIndex s \<noteq> indexOf s b
                    then emit CurrentIndexChanged (s1\<lparr>currentIndex := indexOf s b\<rparr>) else s1))"
proof (cases "checked p = v")
  case True
  then show ?thesis using assms by simp
next
  case False
  have 1: "setChecked (Suc k) b v s =
             (let s1 = emit (CheckedChanged b) (s\<lparr>heap := (heap s)(b \<mapsto> p\<lparr>checked := v\<rparr>)\<rparr>)
              in if b \<in> connected s then updateCurrentIndex (Suc k) (Some b) s1 else Some s1)"
    using assms False by (simp add: Let_def emit_def del: updateCurrentIndex.simps)
  show ?thesis
    unfolding 1 updateCurrentIndex_Suc using False
    by (cases v) (simp_all add: Let_def emit_def asTabButton_def indexOf_def)
qed

lemma updateCurrentItem_Suc:
  "updateCurrentItem (Suc k) s =
     (case asTabButton s (get s (currentIndex s)) of None \<Rightarrow> Some s
      | Some b \<Rightarrow> setChecked (Suc k) b True s)"
  by (simp del: setChecked.simps)

section \<open>Every event is handled\<close>

lemma setChecked_kept:
  "heap s b \<noteq> None \<Longrightarrow> \<exists>s'. setChecked (Suc k) b v s = Some s' \<and> sizeStateKept s s'"
proof -
  assume "heap s b \<noteq> None"
  then obtain p where p: "heap s b = Some p" by auto
  show ?thesis
    unfolding setChecked_Suc [OF p] by (simp add: Let_def emit_def)
qed

lemma updateCurrentItem_kept:
  "\<exists>s'. updateCurrentItem (Suc k) s = Some s' \<and> sizeStateKept s s'"
proof (cases "asTabButton s (get s (currentIndex s))")
  case None
  then show ?thesis by simp
next
  case (Some b)
  from asTabButton_SomeD [OF this] have "heap s b \<noteq> None" by auto
  from setChecked_kept [OF this, of k True] Some show ?thesis
    by (simp add: updateCurrentItem_Suc del: updateCurrentItem.simps setChecked.simps)
qed

lemma setCurrentIndex_kept:
  "\<exists>s'. setCurrentIndex (Suc k) i s = Some s' \<and> sizeStateKept s s'"
proof (cases "currentIndex s = i")
  case True
  then show ?thesis by simp
next
  case False
  from updateCurrentItem_kept [of k "emit CurrentIndexChanged (s\<lparr>currentIndex := i\<rparr>)"]
  show ?thesis using False
    by (auto simp: emit_def simp del: updateCurrentItem.simps)
qed

lemma layoutPass_width_override:
  "hasContentWidth s \<Longrightarrow>
   contentWidth (layoutPass s) = contentWidth s \<and>
   count_list (emitted (layoutPass s)) ContentWidthChanged = count_list (emitted s) ContentWidthChanged"
  by (simp add: layoutPass_def Let_def updateContentSize_width_override split: option.splits)

lemma layoutPass_height_override:
  "hasContentHeight s \<Longrightarrow>
   contentHeight (layoutPass s) = contentHeight s \<and>
   count_list (emitted (layoutPass s)) ContentHeightChanged = count_list (emitted s) ContentHeightChanged"
  by (simp add: layoutPass_def Let_def updateContentSize_height_override split: option.splits)

lemma setWidth_Suc:
  "heap s r = Some p \<Longrightarrow>
   setWidth (Suc k) r w s =
     Some (if width p = w then s\<lparr>heap := (heap s)(r \<mapsto> p\<lparr>widthValid := True\<rparr>)\<rparr>
           else if updatingLayout s then s\<lparr>heap := (heap s)(r \<mapsto> p\<lparr>widthValid := True, width := w\<rparr>)\<rparr>
           else layoutPass (s\<lparr>heap := (heap s)(r \<mapsto> p\<lparr>widthValid := True, width := w\<rparr>)\<rparr>))"
  by (simp add: Let_def updateLayout_Suc del: updateLayout.simps)

lemma step_total:
  "\<exists>s'. step (Suc k) e s = Some s' \<and> (updatingLayout s' \<longrightarrow> updatingLayout s)"
proof (cases e)
  case EvComponentComplete
  from updateCurrentItem_kept [of k "s\<lparr>isComponentComplete := True\<rparr>"]
  obtain s1 where "updateCurrentItem (Suc k) (s\<lparr>isComponentComplete := True\<rparr>) = Some s1"
    "updatingLayout s1 = updatingLayout s" by auto
  with EvComponentComplete show ?thesis
    using layoutPass_guard [of s1]
    by (simp add: componentComplete_def updateLayout_Suc del: updateLayout.simps updateCurrentItem.simps)
next
  case (EvChildSetWidth r w)
  show ?thesis
  proof (cases "heap s r")
    case None
    with EvChildSetWidth show ?thesis by simp
  next
    case (Some p)
    with EvChildSetWidth show ?thesis
      using layoutPass_guard [of "s\<lparr>heap := (heap s)(r \<mapsto> p\<lparr>widthValid := True, width := w\<rparr>)\<rparr>"]
      by (auto simp: setWidth_Suc simp del: setWidth.simps)
  qed
next
  case (EvChildSetChecked r v)
  show ?thesis
  proof (cases "heap s r = None")
    case True
    with EvChildSetChecked show ?thesis by simp
  next
    case False
    from setChecked_kept [OF this, of k v] EvChildSetChecked False show ?thesis
      by (auto simp del: setChecked.simps)
  qed
next
  case (EvSetCurrentIndex i)
  from setCurrentIndex_kept [of k i s] EvSetCurrentIndex show ?thesis
    by (auto simp del: setCurrentIndex.simps)
qed (insert layoutPass_guard [of s] layoutPass_guard [of "s\<lparr>hasContentWidth := False\<rparr>"]
        layoutPass_guard [of "s\<lparr>hasContentHeight := False\<rparr>"],
     auto simp: updateLayout_Suc itemImplicitWidthChanged_def itemImplicitHeightChanged_def
        updatePolish_def geometryChanged_def setContentWidth_def setContentHeight_def
        resetContentWidth_def resetContentHeight_def setPosition_def itemAdded_def itemRemoved_def
        polish_def emit_def Let_def
      simp del: updateLayout.simps split: option.splits)

lemma run_total:
  "\<exists>s'. run (Suc k) es s = Some s' \<and> (updatingLayout s' \<longrightarrow> updatingLayout s)"
proof (induction es arbitrary: s)
  case Nil
  then show ?case by simp
next
  case (Cons e es)
  from step_total [of k e s] obtain s1 where
    1: "step (Suc k) e s = Some s1" "updatingLayout s1 \<longrightarrow> updatingLayout s" by blast
  from Cons.IH [of s1] obtain s' where
    "run (Suc k) es s1 = Some s'" "updatingLayout s' \<longrightarrow> updatingLayout s1" by blast
  with 1 show ?case by (auto simp del: step.simps)
qed

section \<open>The claims\<close>

text \<open>
  C1. Assigning a width inside \<open>updateLayout\<close> never re-enters \<open>updateLayout\<close>. A pass with
  a budget of one entry completes from every state, so no notification raised by the assignment
  loop started a second pass; the guard \<open>updatingLayout\<close> is true after the pass only if it was
  true before and the pass did not reach the loop, so a pass entered with the guard clear leaves
  it clear on every exit path; while the guard is set, \<open>itemGeometryChanged\<close> returns the state
  as it found it, at any budget; and every sequence of events started with the guard clear
  completes with the guard clear, each handler with a budget of one entry.
\<close>

theorem updateLayout_no_reentry:
  "(\<exists>s'. updateLayout (Suc 0) s = Some s' \<and>
         updatingLayout s' =
           (updatingLayout s \<and>
              (count s \<le> 0 \<or> contentItem s = None \<or> resizableItems (measureAll s) = [])))
   \<and> (updatingLayout s \<longrightarrow> itemGeometryChanged k s = Some s)
   \<and> (\<not> updatingLayout s \<longrightarrow>
        (\<exists>s'. run (Suc 0) es s = Some s' \<and> \<not> updatingLayout s'))"
proof (intro conjI impI)
  show "\<exists>s'. updateLayout (Suc 0) s = Some s' \<and>
         updatingLayout s' =
           (updatingLayout s \<and>
              (count s \<le> 0 \<or> contentItem s = None \<or> resizableItems (measureAll s) = []))"
    unfolding updateLayout_Suc
    by (auto simp: layoutPass_def Let_def updateContentSize_frame split: option.splits)
  show "itemGeometryChanged k s = Some s" if "updatingLayout s"
    using that by (rule itemGeometryChanged_guarded)
  show "\<exists>s'. run (Suc 0) es s = Some s' \<and> \<not> updatingLayout s'" if "\<not> updatingLayout s"
    using run_total [of 0 es s] that by blast
qed

theorem updateLayout_no_reentry_witness:
  "updatingLayout (exBar3\<lparr>updatingLayout := True\<rparr>)
   \<and> itemGeometryChanged 0 (exBar3\<lparr>updatingLayout := True\<rparr>) = Some (exBar3\<lparr>updatingLayout := True\<rparr>)
   \<and> \<not> updatingLayout exBar3
   \<and> map_option updatingLayout
        (run (Suc 0) [EvComponentComplete, EvChildSetWidth 2 40, EvItemImplicitWidthChanged] exBar3)
       = Some False"
  using updateLayout_no_reentry [of exBar3 0
          "[EvComponentComplete, EvChildSetWidth 2 40, EvItemImplicitWidthChanged]"]
        updateLayout_no_reentry [of "exBar3\<lparr>updatingLayout := True\<rparr>" 0 "[]"]
  by (auto simp: ex_defs simp del: run.simps itemGeometryChanged.simps updateLayout.simps)

text \<open>
  The notification is real in the model: with the guard clear and no budget left, setting the
  width of the second button to a new value does not complete.
\<close>

lemma setWidth_unguarded_example: "setWidth 0 2 40 exBar3 = None"
  by (simp add: ex_defs)





text \<open>An event other than setting or resetting the content width is handled, and leaves an
  overridden content width as it is; likewise for the height.\<close>

lemma step_keeps_width:
  assumes "hasContentWidth s" "keepsWidthOverride e"
  shows "\<exists>s'. step (Suc k) e s = Some s' \<and> hasContentWidth s' \<and> contentWidth s' = contentWidth s
           \<and> count_list (emitted s') ContentWidthChanged = count_list (emitted s) ContentWidthChanged"
proof (cases e)
  case EvComponentComplete
  from updateCurrentItem_kept [of k "s\<lparr>isComponentComplete := True\<rparr>"]
  obtain s1 where s1: "updateCurrentItem (Suc k) (s\<lparr>isComponentComplete := True\<rparr>) = Some s1"
    "hasContentWidth s1 = hasContentWidth s" "contentWidth s1 = contentWidth s"
    "count_list (emitted s1) ContentWidthChanged = count_list (emitted s) ContentWidthChanged"
    by auto
  with assms(1) have "hasContentWidth s1" by simp
  from layoutPass_width_override [OF this] s1 assms(1) EvComponentComplete show ?thesis
    by (simp add: componentComplete_def updateLayout_Suc layoutPass_frame
          del: updateLayout.simps updateCurrentItem.simps)
next
  case (EvChildSetWidth r w)
  show ?thesis
  proof (cases "heap s r")
    case None
    with EvChildSetWidth assms(1) show ?thesis by simp
  next
    case (Some p)
    with EvChildSetWidth assms(1) show ?thesis
      using layoutPass_width_override [of "s\<lparr>heap := (heap s)(r \<mapsto> p\<lparr>widthValid := True, width := w\<rparr>)\<rparr>"]
      by (auto simp: setWidth_Suc layoutPass_frame simp del: setWidth.simps)
  qed
next
  case (EvChildSetChecked r v)
  show ?thesis
  proof (cases "heap s r = None")
    case True
    with EvChildSetChecked assms(1) show ?thesis by simp
  next
    case False
    from setChecked_kept [OF this, of k v] EvChildSetChecked False assms(1) show ?thesis
      by (auto simp del: setChecked.simps)
  qed
next
  case (EvSetCurrentIndex i)
  from setCurrentIndex_kept [of k i s] EvSetCurrentIndex assms(1) show ?thesis
    by (auto simp del: setCurrentIndex.simps)
next
  case EvResetContentHeight
  with assms(1) show ?thesis
    using layoutPass_width_override [of "s\<lparr>hasContentHeight := False\<rparr>"]
    by (auto simp: resetContentHeight_def updateLayout_Suc layoutPass_frame Let_def
          simp del: updateLayout.simps)
qed (insert assms layoutPass_width_override [of s],
     auto simp: updateLayout_Suc layoutPass_frame itemImplicitWidthChanged_def
        itemImplicitHeightChanged_def updatePolish_def geometryChanged_def setContentHeight_def
        setPosition_def itemAdded_def itemRemoved_def polish_def emit_def Let_def
      simp del: updateLayout.simps split: option.splits)

lemma step_keeps_height:
  assumes "hasContentHeight s" "keepsHeightOverride e"
  shows "\<exists>s'. step (Suc k) e s = Some s' \<and> hasContentHeight s' \<and> contentHeight s' = contentHeight s
           \<and> count_list (emitted s') ContentHeightChanged = count_list (emitted s) ContentHeightChanged"
proof (cases e)
  case EvComponentComplete
  from updateCurrentItem_kept [of k "s\<lparr>isComponentComplete := True\<rparr>"]
  obtain s1 where s1: "updateCurrentItem (Suc k) (s\<lparr>isComponentComplete := True\<rparr>) = Some s1"
    "hasContentHeight s1 = hasContentHeight s" "contentHeight s1 = contentHeight s"
    "count_list (emitted s1) ContentHeightChanged = count_list (emitted s) ContentHeightChanged"
    by auto
  with assms(1) have "hasContentHeight s1" by simp
  from layoutPass_height_override [OF this] s1 assms(1) EvComponentComplete show ?thesis
    by (simp add: componentComplete_def updateLayout_Suc layoutPass_frame
          del: updateLayout.simps updateCurrentItem.simps)
next
  case (EvChildSetWidth r w)
  show ?thesis
  proof (cases "heap s r")
    case None
    with EvChildSetWidth assms(1) show ?thesis by simp
  next
    case (Some p)
    with EvChildSetWidth assms(1) show ?thesis
      using layoutPass_height_override [of "s\<lparr>heap := (heap s)(r \<mapsto> p\<lparr>widthValid := True, width := w\<rparr>)\<rparr>"]
      by (auto simp: setWidth_Suc layoutPass_frame simp del: setWidth.simps)
  qed
next
  case (EvChildSetChecked r v)
  show ?thesis
  proof (cases "heap s r = None")
    case True
    with EvChildSetChecked assms(1) show ?thesis by simp
  next
    case False
    from setChecked_kept [OF this, of k v] EvChildSetChecked False assms(1) show ?thesis
      by (auto simp del: setChecked.simps)
  qed
next
  case (EvSetCurrentIndex i)
  from setCurrentIndex_kept [of k i s] EvSetCurrentIndex assms(1) show ?thesis
    by (auto simp del: setCurrentIndex.simps)
next
  case EvResetContentWidth
  with assms(1) show ?thesis
    using layoutPass_height_override [of "s\<lparr>hasContentWidth := False\<rparr>"]
    by (auto simp: resetContentWidth_def updateLayout_Suc layoutPass_frame Let_def
          simp del: updateLayout.simps)
qed (insert assms layoutPass_height_override [of s],
     auto simp: updateLayout_Suc layoutPass_frame itemImplicitWidthChanged_def
        itemImplicitHeightChanged_def updatePolish_def geometryChanged_def setContentWidth_def
        setPosition_def itemAdded_def itemRemoved_def polish_def emit_def Let_def
      simp del: updateLayout.simps split: option.splits)

lemma run_keeps_width:
  "hasContentWidth s \<Longrightarrow> list_all keepsWidthOverride es \<Longrightarrow>
   \<exists>s'. run (Suc k) es s = Some s' \<and> hasContentWidth s' \<and> contentWidth s' = contentWidth s
      \<and> count_list (emitted s') ContentWidthChanged = count_list (emitted s) ContentWidthChanged"
proof (induction es arbitrary: s)
  case Nil
  then show ?case by simp
next
  case (Cons e es)
  then have "keepsWidthOverride e" "list_all keepsWidthOverride es" by simp_all
  from step_keeps_width [OF Cons.prems(1) this(1), of k] obtain s1 where
    1: "step (Suc k) e s = Some s1" "hasContentWidth s1" "contentWidth s1 = contentWidth s"
    "count_list (emitted s1) ContentWidthChanged = count_list (emitted s) ContentWidthChanged"
    by blast
  from Cons.IH [OF 1(2) \<open>list_all keepsWidthOverride es\<close>] 1 show ?case
    by (auto simp del: step.simps)
qed

lemma run_keeps_height:
  "hasContentHeight s \<Longrightarrow> list_all keepsHeightOverride es \<Longrightarrow>
   \<exists>s'. run (Suc k) es s = Some s' \<and> hasContentHeight s' \<and> contentHeight s' = contentHeight s
      \<and> count_list (emitted s') ContentHeightChanged = count_list (emitted s) ContentHeightChanged"
proof (induction es arbitrary: s)
  case Nil
  then show ?case by simp
next
  case (Cons e es)
  then have "keepsHeightOverride e" "list_all keepsHeightOverride es" by simp_all
  from step_keeps_height [OF Cons.prems(1) this(1), of k] obtain s1 where
    1: "step (Suc k) e s = Some s1" "hasContentHeight s1" "contentHeight s1 = contentHeight s"
    "count_list (emitted s1) ContentHeightChanged = count_list (emitted s) ContentHeightChanged"
    by blast
  from Cons.IH [OF 1(2) \<open>list_all keepsHeightOverride es\<close>] 1 show ?case
    by (auto simp del: step.simps)
qed

text \<open>
  C3. While the content width is overridden, \<open>updateLayout\<close> leaves the stored content width
  and the override flag as they are and emits no \<open>ContentWidthChanged\<close>; and after
  \<open>setContentWidth\<close> every sequence of events without a further \<open>setContentWidth\<close> or
  \<open>resetContentWidth\<close> is handled and ends with the content width that \<open>setContentWidth\<close>
  left, with no further \<open>ContentWidthChanged\<close> in the log. The same holds for the height.
\<close>

theorem content_size_override_kept:
  "(hasContentWidth s \<longrightarrow>
      (\<exists>s'. updateLayout (Suc k) s = Some s' \<and> hasContentWidth s' \<and> contentWidth s' = contentWidth s
         \<and> count_list (emitted s') ContentWidthChanged = count_list (emitted s) ContentWidthChanged))
   \<and> (list_all keepsWidthOverride es \<longrightarrow>
      (\<exists>s'. run (Suc k) es (setContentWidth w s) = Some s' \<and> hasContentWidth s'
         \<and> contentWidth s' = contentWidth (setContentWidth w s)
         \<and> count_list (emitted s') ContentWidthChanged
             = count_list (emitted (setContentWidth w s)) ContentWidthChanged))
   \<and> (hasContentHeight s \<longrightarrow>
      (\<exists>s'. updateLayout (Suc k) s = Some s' \<and> hasContentHeight s' \<and> contentHeight s' = contentHeight s
         \<and> count_list (emitted s') ContentHeightChanged = count_list (emitted s) ContentHeightChanged))
   \<and> (list_all keepsHeightOverride es \<longrightarrow>
      (\<exists>s'. run (Suc k) es (setContentHeight w s) = Some s' \<and> hasContentHeight s'
         \<and> contentHeight s' = contentHeight (setContentHeight w s)
         \<and> count_list (emitted s') ContentHeightChanged
             = count_list (emitted (setContentHeight w s)) ContentHeightChanged))"
proof (intro conjI impI)
  assume "hasContentWidth s"
  then show "\<exists>s'. updateLayout (Suc k) s = Some s' \<and> hasContentWidth s' \<and> contentWidth s' = contentWidth s
         \<and> count_list (emitted s') ContentWidthChanged = count_list (emitted s) ContentWidthChanged"
    using layoutPass_width_override [of s]
    by (simp add: updateLayout_Suc layoutPass_frame del: updateLayout.simps)
next
  assume "hasContentHeight s"
  then show "\<exists>s'. updateLayout (Suc k) s = Some s' \<and> hasContentHeight s' \<and> contentHeight s' = contentHeight s
         \<and> count_list (emitted s') ContentHeightChanged = count_list (emitted s) ContentHeightChanged"
    using layoutPass_height_override [of s]
    by (simp add: updateLayout_Suc layoutPass_frame del: updateLayout.simps)
next
  assume es: "list_all keepsWidthOverride es"
  have "hasContentWidth (setContentWidth w s)" by (simp add: setContentWidth_def Let_def emit_def)
  from run_keeps_width [OF this es]
  show "\<exists>s'. run (Suc k) es (setContentWidth w s) = Some s' \<and> hasContentWidth s'
         \<and> contentWidth s' = contentWidth (setContentWidth w s)
         \<and> count_list (emitted s') ContentWidthChanged
             = count_list (emitted (setContentWidth w s)) ContentWidthChanged" .
next
  assume es: "list_all keepsHeightOverride es"
  have "hasContentHeight (setContentHeight w s)" by (simp add: setContentHeight_def Let_def emit_def)
  from run_keeps_height [OF this es]
  show "\<exists>s'. run (Suc k) es (setContentHeight w s) = Some s' \<and> hasContentHeight s'
         \<and> contentHeight s' = contentHeight (setContentHeight w s)
         \<and> count_list (emitted s') ContentHeightChanged
             = count_list (emitted (setContentHeight w s)) ContentHeightChanged" .
qed

theorem content_size_override_kept_witness:
  "hasContentWidth (setContentWidth 120 exBar3)
   \<and> map_option contentWidth (updateLayout (Suc 0) (setContentWidth 120 exBar3)) = Some 120
   \<and> map_option contentWidth
        (run (Suc 0) [EvUpdatePolish, EvChildSetWidth 2 40, EvResetContentHeight,
                      EvItemImplicitHeightChanged, EvComponentComplete]
           (setContentWidth 120 exBar3)) = Some 120
   \<and> hasContentHeight (setContentHeight 33 exBar3)
   \<and> map_option contentHeight (updateLayout (Suc 0) (setContentHeight 33 exBar3)) = Some 33
   \<and> map_option contentHeight
        (run (Suc 0) [EvGeometryChanged, EvChildSetWidth 2 40, EvResetContentWidth,
                      EvItemGeometryChanged]
           (setContentHeight 33 exBar3)) = Some 33"
proof -
  have w: "contentWidth (setContentWidth 120 exBar3) = 120" "hasContentWidth (setContentWidth 120 exBar3)"
    by (simp_all add: setContentWidth_def ex_defs qFuzzyCompare_def emit_def Let_def)
  have h: "contentHeight (setContentHeight 33 exBar3) = 33" "hasContentHeight (setContentHeight 33 exBar3)"
    by (simp_all add: setContentHeight_def ex_defs qFuzzyCompare_def emit_def Let_def)
  show ?thesis
    using content_size_override_kept [of "setContentWidth 120 exBar3" 0
            "[EvUpdatePolish, EvChildSetWidth 2 40, EvResetContentHeight,
              EvItemImplicitHeightChanged, EvComponentComplete]" 120]
          content_size_override_kept [of exBar3 0
            "[EvUpdatePolish, EvChildSetWidth 2 40, EvResetContentHeight,
              EvItemImplicitHeightChanged, EvComponentComplete]" 120]
          content_size_override_kept [of "setContentHeight 33 exBar3" 0
            "[EvGeometryChanged, EvChildSetWidth 2 40, EvResetContentWidth,
              EvItemGeometryChanged]" 33]
          content_size_override_kept [of exBar3 0
            "[EvGeometryChanged, EvChildSetWidth 2 40, EvResetContentWidth,
              EvItemGeometryChanged]" 33]
    by (auto simp: w h simp del: run.simps updateLayout.simps)
qed

text \<open>
  C5. Let the sender be a tab button held by the model, and \<open>i\<close> the first index at which the
  model holds it (its only index, as a container holds an item once). If the button reports
  itself checked, \<open>updateCurrentIndex\<close> completes with \<open>currentIndex = i\<close>, changing nothing but
  the index and logging \<open>CurrentIndexChanged\<close> when the index was different; if it reports
  itself unchecked, the state is left as it was.
\<close>

theorem updateCurrentIndex_follows_checked:
  assumes "i < length (contentModel s)" and "contentModel s ! i = b"
    and "b \<notin> set (take i (contentModel s))"
    and "heap s b = Some p" and "cls p = QQuickTabButtonClass"
  shows "(checked p \<longrightarrow>
            (\<exists>s'. updateCurrentIndex (Suc k) (Some b) s = Some s' \<and> currentIndex s' = int i
               \<and> s' = (if currentIndex s = int i then s
                        else emit CurrentIndexChanged (s\<lparr>currentIndex := int i\<rparr>))))
         \<and> (\<not> checked p \<longrightarrow>
            updateCurrentIndex (Suc k) (Some b) s = Some s)"
proof -
  have first: "\<forall>m<i. contentModel s ! m \<noteq> b"
  proof (intro allI impI)
    fix m assume m: "m < i"
    then have "take i (contentModel s) ! m \<in> set (take i (contentModel s))"
      using assms(1) by (intro nth_mem) simp
    with m assms(3) show "contentModel s ! m \<noteq> b" by auto
  qed
  have idx: "indexOf s b = int i"
    using indexOfFrom_first [OF assms(1,2) first, of 0] by (simp add: indexOf_def)
  have tb: "asTabButton s (Some b) = Some b"
    using assms(4,5) by (simp add: asTabButton_def)
  show ?thesis
    unfolding updateCurrentIndex_Suc using tb assms(4) idx by (auto simp: emit_def)
qed

theorem updateCurrentIndex_follows_checked_witness:
  "map_option currentIndex (updateCurrentIndex (Suc 0) (Some 3) exClicked) = Some 2
   \<and> currentIndex exClicked = 0
   \<and> updateCurrentIndex (Suc 0) (Some 3) exBar3 = Some exBar3"
  using updateCurrentIndex_follows_checked [where i = 2 and s = exClicked and b = 3
          and p = "(tabButton 70 25)\<lparr>checked := True\<rparr>" and k = 0]
        updateCurrentIndex_follows_checked [where i = 2 and s = exBar3 and b = 3
          and p = "tabButton 70 25" and k = 0]
  by (auto simp: ex_defs simp del: updateCurrentIndex.simps)

text \<open>
  C6. \<open>updateCurrentItem\<close> looks up the entry at \<open>currentIndex\<close>. If the index is out of range,
  or the entry is not a tab button, it returns the state unchanged, at any budget. If the
  entry is a tab button, it completes and the button is checked afterwards. And through the
  connection of line 229: when \<open>setCurrentIndex\<close> changes the index to that of a tab button,
  it completes with the new index and the button checked.
\<close>

theorem updateCurrentItem_checks_current:
  "(currentIndex s < 0 \<or> count s \<le> currentIndex s \<longrightarrow> updateCurrentItem k s = Some s)
   \<and> (get s (currentIndex s) = Some r \<and> heap s r = Some p \<and> cls p \<noteq> QQuickTabButtonClass
        \<longrightarrow> updateCurrentItem k s = Some s)
   \<and> (get s (currentIndex s) = Some r \<and> heap s r = Some p \<and> cls p = QQuickTabButtonClass
        \<longrightarrow> (\<exists>s'. updateCurrentItem (Suc k) s = Some s' \<and> heap s' r = Some (p\<lparr>checked := True\<rparr>)))
   \<and> (i \<noteq> currentIndex s \<and> get s i = Some r \<and> heap s r = Some p \<and> cls p = QQuickTabButtonClass
        \<and> r \<notin> set (take (nat i) (contentModel s))
        \<longrightarrow> (\<exists>s'. setCurrentIndex (Suc k) i s = Some s' \<and> currentIndex s' = i
               \<and> heap s' r = Some (p\<lparr>checked := True\<rparr>)))"
proof (intro conjI impI)
  assume "currentIndex s < 0 \<or> count s \<le> currentIndex s"
  then have "get s (currentIndex s) = None" by (auto simp: get_def)
  then show "updateCurrentItem k s = Some s" by (simp add: asTabButton_def)
next
  assume "get s (currentIndex s) = Some r \<and> heap s r = Some p \<and> cls p \<noteq> QQuickTabButtonClass"
  then show "updateCurrentItem k s = Some s" by (simp add: asTabButton_def)
next
  assume a: "get s (currentIndex s) = Some r \<and> heap s r = Some p \<and> cls p = QQuickTabButtonClass"
  then have tb: "asTabButton s (get s (currentIndex s)) = Some r" by (simp add: asTabButton_def)
  from a have p: "heap s r = Some p" by simp
  show "\<exists>s'. updateCurrentItem (Suc k) s = Some s' \<and> heap s' r = Some (p\<lparr>checked := True\<rparr>)"
    unfolding updateCurrentItem_Suc tb option.case setChecked_Suc [OF p]
    using p by (auto simp: Let_def emit_def)
next
  assume a: "i \<noteq> currentIndex s \<and> get s i = Some r \<and> heap s r = Some p \<and> cls p = QQuickTabButtonClass
        \<and> r \<notin> set (take (nat i) (contentModel s))"
  let ?s = "emit CurrentIndexChanged (s\<lparr>currentIndex := i\<rparr>)"
  from a have g: "0 \<le> i" "nat i < length (contentModel s)" "contentModel s ! nat i = r"
    by (auto simp: get_def count_def split: if_splits)
  have first: "\<forall>m<nat i. contentModel s ! m \<noteq> r"
  proof (intro allI impI)
    fix m assume m: "m < nat i"
    then have "take (nat i) (contentModel s) ! m \<in> set (take (nat i) (contentModel s))"
      using g(2) by (intro nth_mem) simp
    with m a show "contentModel s ! m \<noteq> r" by auto
  qed
  have idx: "indexOf ?s r = i"
    using indexOfFrom_first [OF g(2,3) first, of 0] g(1) by (simp add: indexOf_def emit_def)
  have tb: "asTabButton ?s (get ?s (currentIndex ?s)) = Some r"
    using a g by (simp add: asTabButton_def emit_def get_def count_def)
  have p: "heap ?s r = Some p" using a by (simp add: emit_def)
  have "setCurrentIndex (Suc k) i s = updateCurrentItem (Suc k) ?s"
    using a by (simp del: updateCurrentItem.simps)
  also have "\<dots> = setChecked (Suc k) r True ?s"
    unfolding updateCurrentItem_Suc tb by simp
  finally show "\<exists>s'. setCurrentIndex (Suc k) i s = Some s' \<and> currentIndex s' = i
               \<and> heap s' r = Some (p\<lparr>checked := True\<rparr>)"
    unfolding setChecked_Suc [OF p] idx using p by (auto simp: Let_def emit_def)
qed

theorem updateCurrentItem_checks_current_witness:
  "updateCurrentItem 0 (exBar3\<lparr>currentIndex := 7\<rparr>) = Some (exBar3\<lparr>currentIndex := 7\<rparr>)
   \<and> updateCurrentItem 0 (exBar3\<lparr>currentIndex := - 1\<rparr>) = Some (exBar3\<lparr>currentIndex := - 1\<rparr>)
   \<and> updateCurrentItem 0 exPlain = Some exPlain
   \<and> map_option (\<lambda>s. map_option checked (heap s 1)) (updateCurrentItem (Suc 0) exBar3)
       = Some (Some True)
   \<and> map_option (\<lambda>s. (currentIndex s, map_option checked (heap s 2))) (setCurrentIndex (Suc 0) 1 exBar3)
       = Some (1, Some True)"
  using updateCurrentItem_checks_current [where s = "exBar3\<lparr>currentIndex := 7\<rparr>" and k = 0 and r = 1
          and p = "tabButton 50 20" and i = 0]
        updateCurrentItem_checks_current [where s = "exBar3\<lparr>currentIndex := - 1\<rparr>" and k = 0 and r = 1
          and p = "tabButton 50 20" and i = 0]
        updateCurrentItem_checks_current [where s = exPlain and k = 0 and r = 1 and p = exContentItem and i = 0]
        updateCurrentItem_checks_current [where s = exBar3 and k = 0 and r = 1 and p = "tabButton 50 20" and i = 0]
        updateCurrentItem_checks_current [where s = exBar3 and k = 0 and r = 2 and p = "tabButton 60 30" and i = 1]
  by (auto simp: ex_defs get_def count_def
        simp del: updateCurrentItem.simps setCurrentIndex.simps)

lemma measureAll_cong:
  "contentModel s' = contentModel s \<Longrightarrow> heap s' = heap s \<Longrightarrow> measureAll s' = measureAll s"
  unfolding measureAll_def
  using measureLoop_cong [of s' s 0 "count s"] by (simp add: count_def)

lemma updateContentSize_width_derived:
  "\<not> hasContentWidth s \<Longrightarrow>
   contentWidth (updateContentSize tw mh s) = tw
   \<or> contentWidth (updateContentSize tw mh s) = contentWidth s \<and> qFuzzyCompare (contentWidth s) tw"
  by (simp add: updateContentSize_def Let_def emit_def)

lemma updateContentSize_height_derived:
  "\<not> hasContentHeight s \<Longrightarrow>
   contentHeight (updateContentSize tw mh s) = mh
   \<or> contentHeight (updateContentSize tw mh s) = contentHeight s \<and> qFuzzyCompare (contentHeight s) mh"
  by (simp add: updateContentSize_def Let_def emit_def)

text \<open>
  C7, as the code has it. \<open>resetContentWidth\<close> returns at once when the override flag is
  already clear, without a layout pass. When the flag is set, it clears it and, if the
  component is complete, runs \<open>updateLayout\<close> on the state with the flag cleared. If that pass
  is not cut short (the model is not empty and there is a content item), the derived content
  width takes over: the stored width becomes the derived one, or stays as it was because it
  was already fuzzy-equal to the derived one. If the component is not complete, or the pass is
  cut short by its own early return (empty model or no content item), only the flag changes
  and the stored width stays as it was. In every case the call completes with the flag clear.
  The same holds for \<open>resetContentHeight\<close>.
\<close>

theorem resetContentSize_guarded:
  "(\<not> hasContentWidth s \<longrightarrow> resetContentWidth k s = Some s)
   \<and> (hasContentWidth s \<longrightarrow>
        resetContentWidth k s =
          (if isComponentComplete s then updateLayout k (s\<lparr>hasContentWidth := False\<rparr>)
           else Some (s\<lparr>hasContentWidth := False\<rparr>)))
   \<and> (\<exists>s'. resetContentWidth (Suc k) s = Some s' \<and> \<not> hasContentWidth s')
   \<and> (hasContentWidth s \<and> isComponentComplete s \<and> 0 < count s \<and> contentItem s \<noteq> None \<longrightarrow>
        (\<exists>s'. resetContentWidth (Suc k) s = Some s' \<and>
           (contentWidth s'
              = totalWidth (measureAll s) + real_of_int (max 0 (count s - 1)) * spacing s
            \<or> contentWidth s' = contentWidth s \<and>
              qFuzzyCompare (contentWidth s)
                (totalWidth (measureAll s) + real_of_int (max 0 (count s - 1)) * spacing s))))
   \<and> (hasContentWidth s \<and> (\<not> isComponentComplete s \<or> count s \<le> 0 \<or> contentItem s = None) \<longrightarrow>
        resetContentWidth (Suc k) s = Some (s\<lparr>hasContentWidth := False\<rparr>))
   \<and> (\<not> hasContentHeight s \<longrightarrow> resetContentHeight k s = Some s)
   \<and> (hasContentHeight s \<longrightarrow>
        resetContentHeight k s =
          (if isComponentComplete s then updateLayout k (s\<lparr>hasContentHeight := False\<rparr>)
           else Some (s\<lparr>hasContentHeight := False\<rparr>)))
   \<and> (\<exists>s'. resetContentHeight (Suc k) s = Some s' \<and> \<not> hasContentHeight s')
   \<and> (hasContentHeight s \<and> isComponentComplete s \<and> 0 < count s \<and> contentItem s \<noteq> None \<longrightarrow>
        (\<exists>s'. resetContentHeight (Suc k) s = Some s' \<and>
           (contentHeight s' = maxHeight (measureAll s)
            \<or> contentHeight s' = contentHeight s \<and>
              qFuzzyCompare (contentHeight s) (maxHeight (measureAll s)))))
   \<and> (hasContentHeight s \<and> (\<not> isComponentComplete s \<or> count s \<le> 0 \<or> contentItem s = None) \<longrightarrow>
        resetContentHeight (Suc k) s = Some (s\<lparr>hasContentHeight := False\<rparr>))"
proof (intro conjI impI)
  show "\<exists>s'. resetContentWidth (Suc k) s = Some s' \<and> \<not> hasContentWidth s'"
    by (simp add: resetContentWidth_def Let_def updateLayout_Suc layoutPass_frame
          del: updateLayout.simps)
  show "\<exists>s'. resetContentHeight (Suc k) s = Some s' \<and> \<not> hasContentHeight s'"
    by (simp add: resetContentHeight_def Let_def updateLayout_Suc layoutPass_frame
          del: updateLayout.simps)
next
  assume a: "hasContentWidth s \<and> isComponentComplete s \<and> 0 < count s \<and> contentItem s \<noteq> None"
  let ?s = "s\<lparr>hasContentWidth := False\<rparr>"
  let ?tw = "totalWidth (measureAll s) + real_of_int (max 0 (count s - 1)) * spacing s"
  from a obtain ci where ci: "contentItem ?s = Some ci" by auto
  have pos: "0 < count ?s" using a by (simp add: count_def)
  have ma: "measureAll ?s = measureAll s" by (rule measureAll_cong) simp_all
  have "resetContentWidth (Suc k) s = Some (layoutPass ?s)"
    using a by (simp add: resetContentWidth_def Let_def updateLayout_Suc del: updateLayout.simps)
  moreover have "contentWidth (layoutPass ?s) = ?tw
      \<or> contentWidth (layoutPass ?s) = contentWidth s \<and> qFuzzyCompare (contentWidth s) ?tw"
  proof (cases "resizableItems (measureAll s) = []")
    case True
    then show ?thesis
      unfolding layoutPass_run [OF pos ci] ma
      using updateContentSize_width_derived [of ?s ?tw "maxHeight (measureAll s)"]
      by (simp add: count_def)
  next
    case False
    let ?h = "assignedHeap (resizableItems (measureAll s))
                ((width ci - reservedWidth (measureAll s)
                   - real_of_int (max 0 (count s - 1)) * spacing s)
                 / real (length (resizableItems (measureAll s)))) (heap s)"
    from False show ?thesis
      unfolding layoutPass_run [OF pos ci] ma
      using updateContentSize_width_derived
              [of "?s\<lparr>heap := ?h, updatingLayout := False\<rparr>" ?tw "maxHeight (measureAll s)"]
      by (simp add: count_def)
  qed
  ultimately show "\<exists>s'. resetContentWidth (Suc k) s = Some s' \<and>
           (contentWidth s' = ?tw
            \<or> contentWidth s' = contentWidth s \<and> qFuzzyCompare (contentWidth s) ?tw)"
    by simp
next
  assume a: "hasContentHeight s \<and> isComponentComplete s \<and> 0 < count s \<and> contentItem s \<noteq> None"
  let ?s = "s\<lparr>hasContentHeight := False\<rparr>"
  let ?tw = "totalWidth (measureAll s) + real_of_int (max 0 (count s - 1)) * spacing s"
  let ?mh = "maxHeight (measureAll s)"
  from a obtain ci where ci: "contentItem ?s = Some ci" by auto
  have pos: "0 < count ?s" using a by (simp add: count_def)
  have ma: "measureAll ?s = measureAll s" by (rule measureAll_cong) simp_all
  have "resetContentHeight (Suc k) s = Some (layoutPass ?s)"
    using a by (simp add: resetContentHeight_def Let_def updateLayout_Suc del: updateLayout.simps)
  moreover have "contentHeight (layoutPass ?s) = ?mh
      \<or> contentHeight (layoutPass ?s) = contentHeight s \<and> qFuzzyCompare (contentHeight s) ?mh"
  proof (cases "resizableItems (measureAll s) = []")
    case True
    then show ?thesis
      unfolding layoutPass_run [OF pos ci] ma
      using updateContentSize_height_derived [of ?s ?tw ?mh]
      by (simp add: count_def)
  next
    case False
    let ?h = "assignedHeap (resizableItems (measureAll s))
                ((width ci - reservedWidth (measureAll s)
                   - real_of_int (max 0 (count s - 1)) * spacing s)
                 / real (length (resizableItems (measureAll s)))) (heap s)"
    from False show ?thesis
      unfolding layoutPass_run [OF pos ci] ma
      using updateContentSize_height_derived
              [of "?s\<lparr>heap := ?h, updatingLayout := False\<rparr>" ?tw ?mh]
      by (simp add: count_def)
  qed
  ultimately show "\<exists>s'. resetContentHeight (Suc k) s = Some s' \<and>
           (contentHeight s' = ?mh
            \<or> contentHeight s' = contentHeight s \<and> qFuzzyCompare (contentHeight s) ?mh)"
    by simp
next
  assume "hasContentWidth s \<and> (\<not> isComponentComplete s \<or> count s \<le> 0 \<or> contentItem s = None)"
  then show "resetContentWidth (Suc k) s = Some (s\<lparr>hasContentWidth := False\<rparr>)"
    by (auto simp: resetContentWidth_def Let_def count_def)
next
  assume "hasContentHeight s \<and> (\<not> isComponentComplete s \<or> count s \<le> 0 \<or> contentItem s = None)"
  then show "resetContentHeight (Suc k) s = Some (s\<lparr>hasContentHeight := False\<rparr>)"
    by (auto simp: resetContentHeight_def Let_def count_def)
qed (simp_all add: resetContentWidth_def resetContentHeight_def Let_def del: updateLayout.simps)

theorem resetContentSize_guarded_witness:
  "hasContentWidth (setContentWidth 120 exBar3) \<and> isComponentComplete (setContentWidth 120 exBar3)
   \<and> map_option (\<lambda>s. (hasContentWidth s, contentWidth s))
        (resetContentWidth (Suc 0) (setContentWidth 120 exBar3)) = Some (False, 200)
   \<and> hasContentHeight (setContentHeight 33 exBar3)
   \<and> map_option (\<lambda>s. (hasContentHeight s, contentHeight s))
        (resetContentHeight (Suc 0) (setContentHeight 33 exBar3)) = Some (False, 30)
   \<and> \<not> hasContentWidth exBar3 \<and> resetContentWidth (Suc 0) exBar3 = Some exBar3
   \<and> \<not> hasContentHeight exBar3 \<and> resetContentHeight (Suc 0) exBar3 = Some exBar3
   \<and> hasContentWidth exEmpty \<and> hasContentHeight exEmpty \<and> count exEmpty = 0
   \<and> resetContentWidth (Suc 0) exEmpty = Some (exEmpty\<lparr>hasContentWidth := False\<rparr>)
   \<and> resetContentHeight (Suc 0) exEmpty = Some (exEmpty\<lparr>hasContentHeight := False\<rparr>)"
proof -
  have w: "setContentWidth 120 exBar3
             = emit ContentWidthChanged (exBar3\<lparr>hasContentWidth := True, contentWidth := 120\<rparr>)"
    by (simp add: setContentWidth_def ex_defs qFuzzyCompare_def Let_def)
  have h: "setContentHeight 33 exBar3
             = emit ContentHeightChanged (exBar3\<lparr>hasContentHeight := True, contentHeight := 33\<rparr>)"
    by (simp add: setContentHeight_def ex_defs qFuzzyCompare_def Let_def)
  have 1: "map_option (\<lambda>s. (hasContentWidth s, contentWidth s))
        (updateLayout (Suc 0) ((setContentWidth 120 exBar3)\<lparr>hasContentWidth := False\<rparr>))
          = Some (False, 200)"
    unfolding w by (simp add: ex_defs eval_defs)
  have 2: "map_option (\<lambda>s. (hasContentHeight s, contentHeight s))
        (updateLayout (Suc 0) ((setContentHeight 33 exBar3)\<lparr>hasContentHeight := False\<rparr>))
          = Some (False, 30)"
    unfolding h by (simp add: ex_defs eval_defs)
  have 3: "hasContentWidth (setContentWidth 120 exBar3)" "isComponentComplete (setContentWidth 120 exBar3)"
    "hasContentHeight (setContentHeight 33 exBar3)" "isComponentComplete (setContentHeight 33 exBar3)"
    "\<not> hasContentWidth exBar3" "\<not> hasContentHeight exBar3"
    unfolding w h by (simp_all add: ex_defs emit_def)
  have 4: "hasContentWidth exEmpty" "hasContentHeight exEmpty" "count exEmpty = 0"
    by (simp_all add: exEmpty_def QQuickTabBarPrivate_init_def count_def)
  show ?thesis
    using resetContentSize_guarded [of "setContentWidth 120 exBar3" "Suc 0"]
          resetContentSize_guarded [of "setContentHeight 33 exBar3" "Suc 0"]
          resetContentSize_guarded [of exBar3 "Suc 0"]
          resetContentSize_guarded [of exEmpty 0]
    by (simp add: 1 2 3 4 del: updateLayout.simps)
qed

text \<open>
  C7 as stated fails in two ways. In \<open>exBar3\<close> the component is complete, the override flag
  is clear and the stored content width 0 is stale (a pass would store 200);
  \<open>resetContentWidth\<close> returns the state as it is, so no pass has run and the derived width has
  not taken over. Likewise for the height, where a pass would store 30. And in \<open>exEmpty\<close>,
  a complete tab bar without children whose content size is overridden to 120 by 33, the
  reset clears the flag and runs the pass, which returns at once: 120 (33) stays stored.
\<close>

theorem resetContentSize_counterexample:
  "isComponentComplete exBar3
   \<and> resetContentWidth (Suc 0) exBar3 = Some exBar3
   \<and> resetContentHeight (Suc 0) exBar3 = Some exBar3
   \<and> contentWidth exBar3 = 0 \<and> contentHeight exBar3 = 0
   \<and> map_option contentWidth (updateLayout (Suc 0) exBar3) = Some 200
   \<and> map_option contentHeight (updateLayout (Suc 0) exBar3) = Some 30
   \<and> resetContentWidth (Suc 0) exBar3 \<noteq> updateLayout (Suc 0) exBar3
   \<and> resetContentHeight (Suc 0) exBar3 \<noteq> updateLayout (Suc 0) exBar3
   \<and> isComponentComplete exEmpty \<and> hasContentWidth exEmpty \<and> hasContentHeight exEmpty
   \<and> resetContentWidth (Suc 0) exEmpty = Some (exEmpty\<lparr>hasContentWidth := False\<rparr>)
   \<and> contentWidth (exEmpty\<lparr>hasContentWidth := False\<rparr>) = 120
   \<and> resetContentHeight (Suc 0) exEmpty = Some (exEmpty\<lparr>hasContentHeight := False\<rparr>)
   \<and> contentHeight (exEmpty\<lparr>hasContentHeight := False\<rparr>) = 33"
proof -
  have 1: "map_option contentWidth (updateLayout (Suc 0) exBar3) = Some 200"
    "map_option contentHeight (updateLayout (Suc 0) exBar3) = Some 30"
    by (simp_all add: ex_defs eval_defs)
  have 2: "resetContentWidth (Suc 0) exBar3 = Some exBar3"
    "resetContentHeight (Suc 0) exBar3 = Some exBar3"
    "contentWidth exBar3 = 0" "contentHeight exBar3 = 0" "isComponentComplete exBar3"
    by (simp_all add: resetContentWidth_def resetContentHeight_def ex_defs)
  have 3: "updateLayout (Suc 0) exBar3 \<noteq> Some exBar3"
    using 1(1) 2(3) by (auto simp del: updateLayout.simps)
  have 4: "isComponentComplete exEmpty" "hasContentWidth exEmpty" "hasContentHeight exEmpty"
    "resetContentWidth (Suc 0) exEmpty = Some (exEmpty\<lparr>hasContentWidth := False\<rparr>)"
    "contentWidth (exEmpty\<lparr>hasContentWidth := False\<rparr>) = 120"
    "resetContentHeight (Suc 0) exEmpty = Some (exEmpty\<lparr>hasContentHeight := False\<rparr>)"
    "contentHeight (exEmpty\<lparr>hasContentHeight := False\<rparr>) = 33"
    by (simp_all add: resetContentWidth_def resetContentHeight_def exEmpty_def
          QQuickTabBarPrivate_init_def count_def Let_def)
  show ?thesis using 1 2 3 4 by (simp del: updateLayout.simps)
qed









text \<open>
  C9. A child whose explicit-width flag is set when the pass starts is not in the resizable
  set, and the pass leaves the object as it is; more generally the pass changes no object
  outside the resizable set. Where the first loop meets such a child it adds the child's
  width to \<open>totalWidth\<close> and to \<open>reservedWidth\<close>.
\<close>

theorem updateLayout_keeps_explicit_width:
  assumes "heap s r = Some p" and "widthValid p"
  shows "r \<notin> set (resizableItems (measureAll s))
         \<and> (\<exists>s'. updateLayout (Suc k) s = Some s' \<and> heap s' r = Some p
                \<and> (\<forall>x. x \<notin> set (resizableItems (measureAll s)) \<longrightarrow> heap s' x = heap s x))
         \<and> (itemAt s i = Some r \<longrightarrow>
               totalWidth (measureItem s a i) = totalWidth a + width p
               \<and> reservedWidth (measureItem s a i) = reservedWidth a + width p
               \<and> resizableItems (measureItem s a i) = resizableItems a)"
proof -
  have nr: "r \<notin> set (resizableItems (measureAll s))"
    using resizable_live [of r s] assms by auto
  show ?thesis
    using nr assms layoutPass_heap_other [of _ s]
    by (auto simp: updateLayout_Suc measureItem_def simp del: updateLayout.simps)
qed

theorem updateLayout_keeps_explicit_width_witness:
  "map_option (\<lambda>s. map_option (\<lambda>p. (width p, widthValid p)) (heap s 4)) (updateLayout (Suc 0) exBar4)
     = Some (Some (40, True))
   \<and> reservedWidth (measureItem exBar4
        \<lparr>maxHeight = 0, totalWidth = 0, reservedWidth = 0, resizableItems = []\<rparr> 3) = 40"
  using updateLayout_keeps_explicit_width [where s = exBar4 and r = 4 and k = 0 and i = 3
          and p = "(tabButton 45 20)\<lparr>width := 40, widthValid := True\<rparr>"
          and a = "\<lparr>maxHeight = 0, totalWidth = 0, reservedWidth = 0, resizableItems = []\<rparr>"]
  by (auto simp: ex_defs itemAt_def get_def count_def asQuickItem_def simp del: updateLayout.simps)

text \<open>
  C10. \<open>setContentWidth\<close> sets the override flag whatever the value. If the value is
  fuzzy-equal to the stored content width, nothing else changes: the stored width and the
  log are as before; and a following \<open>updateLayout\<close> completes without touching the stored
  width or emitting \<open>ContentWidthChanged\<close>. The same holds for \<open>setContentHeight\<close>.
\<close>

theorem setContentSize_sets_flag:
  "hasContentWidth (setContentWidth w s)
   \<and> (qFuzzyCompare (contentWidth s) w \<longrightarrow>
        setContentWidth w s = s\<lparr>hasContentWidth := True\<rparr>
        \<and> (\<exists>s'. updateLayout (Suc k) (setContentWidth w s) = Some s'
               \<and> contentWidth s' = contentWidth s \<and> hasContentWidth s'
               \<and> count_list (emitted s') ContentWidthChanged
                   = count_list (emitted s) ContentWidthChanged))
   \<and> hasContentHeight (setContentHeight h s)
   \<and> (qFuzzyCompare (contentHeight s) h \<longrightarrow>
        setContentHeight h s = s\<lparr>hasContentHeight := True\<rparr>
        \<and> (\<exists>s'. updateLayout (Suc k) (setContentHeight h s) = Some s'
               \<and> contentHeight s' = contentHeight s \<and> hasContentHeight s'
               \<and> count_list (emitted s') ContentHeightChanged
                   = count_list (emitted s) ContentHeightChanged))"
  using layoutPass_width_override [of "s\<lparr>hasContentWidth := True\<rparr>"]
        layoutPass_height_override [of "s\<lparr>hasContentHeight := True\<rparr>"]
  by (simp add: setContentWidth_def setContentHeight_def Let_def emit_def updateLayout_Suc
        layoutPass_frame del: updateLayout.simps)

theorem setContentSize_sets_flag_witness:
  "qFuzzyCompare (contentWidth exBar3) 0
   \<and> setContentWidth 0 exBar3 = exBar3\<lparr>hasContentWidth := True\<rparr>
   \<and> map_option contentWidth (updateLayout (Suc 0) (setContentWidth 0 exBar3)) = Some 0
   \<and> map_option contentWidth (updateLayout (Suc 0) exBar3) = Some 200
   \<and> qFuzzyCompare (contentHeight exBar3) 0
   \<and> setContentHeight 0 exBar3 = exBar3\<lparr>hasContentHeight := True\<rparr>
   \<and> map_option contentHeight (updateLayout (Suc 0) (setContentHeight 0 exBar3)) = Some 0
   \<and> map_option contentHeight (updateLayout (Suc 0) exBar3) = Some 30"
proof -
  have 1: "map_option contentWidth (updateLayout (Suc 0) exBar3) = Some 200"
    "map_option contentHeight (updateLayout (Suc 0) exBar3) = Some 30"
    by (simp_all add: ex_defs eval_defs)
  have 2: "qFuzzyCompare (contentWidth exBar3) 0" "qFuzzyCompare (contentHeight exBar3) 0"
    "contentWidth exBar3 = 0" "contentHeight exBar3 = 0"
    by (simp_all add: ex_defs qFuzzyCompare_def)
  show ?thesis
    using setContentSize_sets_flag [of 0 exBar3 0 0] 1 2
    by (auto simp del: updateLayout.simps)
qed

end
